theory Spec2Isabelle
  imports Main
begin

section \<open>Data model\<close>

text \<open>
  Timestamps are the time values of JavaScript \<^verbatim>\<open>Date\<close> objects: integral milliseconds
  relative to the epoch, which is the time value 0. Every \<^verbatim>\<open>Date\<close> in the model is a valid one.
\<close>

type_synonym timestamp = int

definition epoch :: timestamp where
  "epoch = 0"

text \<open>One element of \<^verbatim>\<open>labeled\<close>: \<^verbatim>\<open>{ stage, versionId, createdDate }\<close>.\<close>

record label_record =
  stage :: string
  versionId :: string
  createdDate :: timestamp

text \<open>
  One element of \<^verbatim>\<open>resp.Versions\<close>. \<^verbatim>\<open>CreatedDate\<close> and \<^verbatim>\<open>VersionStages\<close> may be
  \<^verbatim>\<open>undefined\<close>, which is \<open>None\<close>.
\<close>

record version_entry =
  VersionId :: string
  CreatedDate :: "timestamp option"
  VersionStages :: "string list option"

text \<open>
  What \<^verbatim>\<open>client.send\<close> resolves to, read through the two fields the code looks at. The
  response to an update command has neither field.
\<close>

record response =
  Versions :: "version_entry list option"
  NextToken :: "string option"

text \<open>
  The two commands, with their inputs in the order of the source:
  \<^verbatim>\<open>{SecretId, IncludeDeprecated, NextToken, MaxResults}\<close> and
  \<^verbatim>\<open>{SecretId, VersionStage, RemoveFromVersionId}\<close>.
\<close>

datatype command =
  ListSecretVersionIdsCommand string bool "string option" nat
| UpdateSecretVersionStageCommand string string string

fun isUpdate :: "command \<Rightarrow> bool" where
  "isUpdate (UpdateSecretVersionStageCommand _ _ _) = True"
| "isUpdate (ListSecretVersionIdsCommand _ _ _ _) = False"

text \<open>
  A value thrown by \<^verbatim>\<open>client.send\<close> (its \<^verbatim>\<open>name\<close> and \<^verbatim>\<open>message\<close>), or the
  \<^verbatim>\<open>TypeError\<close> of reading a property of \<^verbatim>\<open>undefined\<close>.
\<close>

datatype js_error = ClientError string string | TypeError

text \<open>
  The client is a state of any type \<open>'c\<close> with its \<^verbatim>\<open>send\<close>: a rejected promise is \<open>Inl\<close>.
  The log holds every \<^verbatim>\<open>client.send(command)\<close> of a run in order, with the error it threw,
  if any.
\<close>

type_synonym 'c client = "'c \<Rightarrow> command \<Rightarrow> (js_error + response) \<times> 'c"

type_synonym call_log = "(command \<times> js_error option) list"

text \<open>The object returned by \<^verbatim>\<open>trimStagesWithClient\<close>; an absent \<^verbatim>\<open>removed\<close> is \<open>None\<close>.\<close>

record run_result =
  trimmed :: bool
  removed :: "(string \<times> string) option"
  count :: nat
  manageableCount :: nat

text \<open>
  The second argument of \<^verbatim>\<open>trimStagesWithClient\<close>. A property left out is \<open>None\<close> and
  takes the default of the parameter list.
\<close>

record trim_options =
  secretId :: string
  threshold :: "int option"
  excludeStages :: "string set option"
  dryRun :: "bool option"

section \<open>The selector\<close>

text \<open>
  \<^verbatim>\<open>Array.prototype.toSorted(compare)\<close>: ECMAScript requires the sort to be stable, and for
  a consistent comparator the stable sorted permutation is unique. Insertion from the right
  computes it: an element goes in front of the first one it does not compare greater than.
\<close>

fun insertSorted :: "('a \<Rightarrow> 'a \<Rightarrow> int) \<Rightarrow> 'a \<Rightarrow> 'a list \<Rightarrow> 'a list" where
  "insertSorted cmp x [] = [x]"
| "insertSorted cmp x (y # ys) =
     (if cmp x y \<le> 0 then x # y # ys else y # insertSorted cmp x ys)"

definition toSorted :: "('a \<Rightarrow> 'a \<Rightarrow> int) \<Rightarrow> 'a list \<Rightarrow> 'a list" where
  "toSorted cmp xs = foldr (insertSorted cmp) xs []"

text \<open>The comparator \<^verbatim>\<open>(a, b) => a.createdDate - b.createdDate\<close>.\<close>

definition byCreatedDate :: "label_record \<Rightarrow> label_record \<Rightarrow> int" where
  "byCreatedDate a b = createdDate a - createdDate b"

text \<open>
  \<^verbatim>\<open>pickOldestStageToDeprecate(stages, threshold)\<close>. \<open>None\<close> is the \<^verbatim>\<open>null\<close> of the first
  line and also the \<^verbatim>\<open>undefined\<close> that \<^verbatim>\<open>sorted[0]\<close> is on an empty array: the caller tests
  the result with \<^verbatim>\<open>!candidate\<close> only.
\<close>

definition pickOldestStageToDeprecate :: "label_record list \<Rightarrow> int \<Rightarrow> label_record option" where
  "pickOldestStageToDeprecate stages thr =
     (if int (length stages) \<le> thr then None
      else (case toSorted byCreatedDate stages of
              [] \<Rightarrow> None
            | oldest # _ \<Rightarrow> Some oldest))"

section \<open>The collector\<close>

text \<open>
  The body of \<^verbatim>\<open>for (const v of resp.Versions || [])\<close>: the records one version entry pushes
  onto \<^verbatim>\<open>labeled\<close>.
\<close>

definition labelsOfVersion :: "version_entry \<Rightarrow> label_record list" where
  "labelsOfVersion v =
     (case VersionStages v of
        None \<Rightarrow> []
      | Some stages \<Rightarrow>
          if length stages = 0 then []
          else map (\<lambda>s. \<lparr>stage = s, versionId = VersionId v,
                         createdDate = (case CreatedDate v of Some d \<Rightarrow> d | None \<Rightarrow> epoch)\<rparr>)
                   stages)"

definition labelsOfResponse :: "response \<Rightarrow> label_record list" where
  "labelsOfResponse resp =
     concat (map labelsOfVersion (case Versions resp of Some vs \<Rightarrow> vs | None \<Rightarrow> []))"

text \<open>The loop condition \<^verbatim>\<open>while (nextToken)\<close>: an absent or empty token ends the loop.\<close>

fun truthy :: "string option \<Rightarrow> bool" where
  "truthy None = False"
| "truthy (Some s) = (s \<noteq> [])"

text \<open>
  The \<^verbatim>\<open>do ... while (nextToken)\<close> loop, entered with the current \<^verbatim>\<open>nextToken\<close>,
  \<^verbatim>\<open>labeled\<close>, log and client state. The service decides when the loop ends, so a run
  that never ends is \<open>None\<close>.
\<close>

partial_function (option) collectLabeled ::
  "'c client \<Rightarrow> string \<Rightarrow> string option \<Rightarrow> label_record list \<Rightarrow> call_log \<Rightarrow> 'c
     \<Rightarrow> ((js_error + label_record list) \<times> call_log \<times> 'c) option" where
  "collectLabeled send sid nextToken labeled log c =
     (let command = ListSecretVersionIdsCommand sid True nextToken 100 in
      case send c command of
        (Inl e, c') \<Rightarrow> Some (Inl e, log @ [(command, Some e)], c')
      | (Inr resp, c') \<Rightarrow>
          if truthy (NextToken resp)
          then collectLabeled send sid (NextToken resp) (labeled @ labelsOfResponse resp)
                 (log @ [(command, None)]) c'
          else Some (Inr (labeled @ labelsOfResponse resp), log @ [(command, None)], c'))"

section \<open>Filter and deduplicate\<close>

text \<open>
  \<^verbatim>\<open>latestByStage\<close> is a JavaScript \<^verbatim>\<open>Map\<close>: its entries keep the order in which their keys
  were first set, and setting an existing key keeps its place.
\<close>

type_synonym stage_map = "(string \<times> label_record) list"

fun mapSet :: "stage_map \<Rightarrow> string \<Rightarrow> label_record \<Rightarrow> stage_map" where
  "mapSet [] k v = [(k, v)]"
| "mapSet ((k', v') # m) k v = (if k' = k then (k, v) # m else (k', v') # mapSet m k v)"

definition mapGet :: "stage_map \<Rightarrow> string \<Rightarrow> label_record option" where
  "mapGet m k = map_of m k"

text \<open>The two statements after the exclusion test, shared by both entry points.\<close>

definition keepLatest :: "stage_map \<Rightarrow> label_record \<Rightarrow> stage_map" where
  "keepLatest m e =
     (case mapGet m (stage e) of
        None \<Rightarrow> mapSet m (stage e) e
      | Some prev \<Rightarrow> if createdDate e > createdDate prev then mapSet m (stage e) e else m)"

text \<open>The loop body of \<^verbatim>\<open>trimStagesWithClient\<close>, which skips an excluded stage itself.\<close>

definition latestStep :: "string set \<Rightarrow> stage_map \<Rightarrow> label_record \<Rightarrow> stage_map" where
  "latestStep ex m e = (if stage e \<in> ex then m else keepLatest m e)"

definition latestByStage :: "string set \<Rightarrow> label_record list \<Rightarrow> stage_map" where
  "latestByStage ex labeled = foldl (latestStep ex) [] labeled"

text \<open>\<^verbatim>\<open>Array.from(latestByStage.values())\<close>.\<close>

definition uniqueStagesOf :: "string set \<Rightarrow> label_record list \<Rightarrow> label_record list" where
  "uniqueStagesOf ex labeled = map snd (latestByStage ex labeled)"

section \<open>trimStagesWithClient\<close>

definition defaultExcludeStages :: "string set" where
  "defaultExcludeStages = {''AWSCURRENT'', ''AWSPREVIOUS'', ''AWSPENDING''}"

definition thresholdOf :: "trim_options \<Rightarrow> int" where
  "thresholdOf opts = (case threshold opts of Some t \<Rightarrow> t | None \<Rightarrow> 18)"

definition excludeStagesOf :: "trim_options \<Rightarrow> string set" where
  "excludeStagesOf opts = (case excludeStages opts of Some s \<Rightarrow> s | None \<Rightarrow> defaultExcludeStages)"

definition dryRunOf :: "trim_options \<Rightarrow> bool" where
  "dryRunOf opts = (case dryRun opts of Some d \<Rightarrow> d | None \<Rightarrow> False)"

text \<open>Everything after the collection loop, from \<^verbatim>\<open>const latestByStage = new Map()\<close> on.\<close>

definition decide ::
  "'c client \<Rightarrow> trim_options \<Rightarrow> label_record list \<Rightarrow> call_log \<Rightarrow> 'c
     \<Rightarrow> (js_error + run_result) \<times> call_log \<times> 'c" where
  "decide send opts labeled log c =
     (let uniqueStages = uniqueStagesOf (excludeStagesOf opts) labeled in
      case pickOldestStageToDeprecate uniqueStages (thresholdOf opts) of
        None \<Rightarrow>
          (Inr \<lparr>trimmed = False, removed = None, count = length labeled,
                manageableCount = length uniqueStages\<rparr>, log, c)
      | Some candidate \<Rightarrow>
          if dryRunOf opts
          then (Inr \<lparr>trimmed = False, removed = Some (stage candidate, versionId candidate),
                     count = length labeled, manageableCount = length uniqueStages\<rparr>, log, c)
          else
            (let command = UpdateSecretVersionStageCommand (secretId opts) (stage candidate)
                             (versionId candidate) in
             case send c command of
               (Inl e, c') \<Rightarrow> (Inl e, log @ [(command, Some e)], c')
             | (Inr _, c') \<Rightarrow>
                 (Inr \<lparr>trimmed = True, removed = Some (stage candidate, versionId candidate),
                       count = length labeled, manageableCount = length uniqueStages\<rparr>,
                  log @ [(command, None)], c')))"

text \<open>
  \<^verbatim>\<open>trimStagesWithClient(client, options)\<close>: the settled promise (\<open>Inl\<close> when it rejects), the
  log of the calls it made and the client's final state; \<open>None\<close> when the listing never ends.
\<close>

definition trimStagesWithClient ::
  "'c client \<Rightarrow> 'c \<Rightarrow> trim_options \<Rightarrow> ((js_error + run_result) \<times> call_log \<times> 'c) option" where
  "trimStagesWithClient send c opts =
     (case collectLabeled send (secretId opts) None [] [] c of
        None \<Rightarrow> None
      | Some (Inl e, log, c') \<Rightarrow> Some (Inl e, log, c')
      | Some (Inr labeled, log, c') \<Rightarrow> Some (decide send opts labeled log c'))"

section \<open>The action's entry points\<close>

text \<open>
  What \<^verbatim>\<open>run\<close> reads with \<^verbatim>\<open>core.getInput\<close>. The threshold and the dry-run flag are
  taken as \<^verbatim>\<open>parseInt\<close> and the comparison with \<^verbatim>\<open>"true"\<close> leave them; the exclusion
  list is the raw string, empty when the input is not set.
\<close>

record action_inputs =
  secretIdInput :: string
  thresholdInput :: int
  dryRunInput :: bool
  excludeStagesInput :: string

text \<open>What \<^verbatim>\<open>run\<close> reports: \<^verbatim>\<open>core.setOutput("trimmed", ...)\<close> or \<^verbatim>\<open>core.setFailed\<close>.\<close>

datatype action_outcome = Trimmed bool | Failed js_error

text \<open>\<^verbatim>\<open>a || b\<close> on strings: the empty string is falsy.\<close>

definition orElse :: "string \<Rightarrow> string \<Rightarrow> string" where
  "orElse a b = (if a = [] then b else a)"

text \<open>\<^verbatim>\<open>s.split(",")\<close>: the empty string splits into one empty piece.\<close>

fun splitComma :: "string \<Rightarrow> string list" where
  "splitComma [] = [[]]"
| "splitComma (ch # cs) =
     (if ch = CHR '','' then [] # splitComma cs
      else (case splitComma cs of
              [] \<Rightarrow> [[ch]]
            | w # ws \<Rightarrow> (ch # w) # ws))"

text \<open>
  \<^verbatim>\<open>s.trim()\<close>. A character of the model is a code unit below 256; of the white space
  and line terminators that \<^verbatim>\<open>trim\<close> strips, these seven lie in that range (the last is
  the no-break space U+00A0).
\<close>

definition isSpace :: "char \<Rightarrow> bool" where
  "isSpace ch =
     (ch \<in> {CHR 0x09, CHR 0x0A, CHR 0x0B, CHR 0x0C, CHR 0x0D, CHR 0x20, CHR 0xA0})"

definition trim :: "string \<Rightarrow> string" where
  "trim s = rev (dropWhile isSpace (rev (dropWhile isSpace s)))"

text \<open>\<^verbatim>\<open>new Set(raw.split(",").map(s => s.trim()).filter(Boolean))\<close>.\<close>

definition parseExcludeStages :: "string \<Rightarrow> string set" where
  "parseExcludeStages raw = set (filter (\<lambda>s. s \<noteq> []) (map trim (splitComma raw)))"

text \<open>
  \<^verbatim>\<open>run\<close> of the module that exports \<^verbatim>\<open>trimStagesWithClient\<close>: it parses the inputs, calls
  \<^verbatim>\<open>trimStagesWithClient\<close> with all four options and reports.
\<close>

definition runExcludeStages :: "action_inputs \<Rightarrow> string set" where
  "runExcludeStages inp =
     parseExcludeStages (orElse (excludeStagesInput inp) ''AWSCURRENT,AWSPREVIOUS,AWSPENDING'')"

definition run ::
  "'c client \<Rightarrow> 'c \<Rightarrow> action_inputs \<Rightarrow> (action_outcome \<times> call_log \<times> 'c) option" where
  "run send c inp =
     (case trimStagesWithClient send c
             \<lparr>secretId = secretIdInput inp, threshold = Some (thresholdInput inp),
              excludeStages = Some (runExcludeStages inp), dryRun = Some (dryRunInput inp)\<rparr> of
        None \<Rightarrow> None
      | Some (Inl err, log, c') \<Rightarrow> Some (Failed err, log, c')
      | Some (Inr result, log, c') \<Rightarrow> Some (Trimmed (trimmed result), log, c'))"

text \<open>
  \<^verbatim>\<open>run\<close> of \<^verbatim>\<open>src/index.js\<close>, which does the whole job inline. Its collection loop is the
  same text as the one of \<^verbatim>\<open>trimStagesWithClient\<close>.
\<close>

definition indexExcludeStages :: "action_inputs \<Rightarrow> string set" where
  "indexExcludeStages inp = parseExcludeStages (orElse (excludeStagesInput inp) [])"

definition indexUniqueStages :: "string set \<Rightarrow> label_record list \<Rightarrow> label_record list" where
  "indexUniqueStages ex labeled =
     (let manageable = filter (\<lambda>entry. stage entry \<notin> ex) labeled;
          latest = foldl keepLatest [] manageable
      in map (\<lambda>(s, data). data\<lparr>stage := s\<rparr>) latest)"

definition indexRun ::
  "'c client \<Rightarrow> 'c \<Rightarrow> action_inputs \<Rightarrow> (action_outcome \<times> call_log \<times> 'c) option" where
  "indexRun send c inp =
     (case collectLabeled send (secretIdInput inp) None [] [] c of
        None \<Rightarrow> None
      | Some (Inl err, log, c') \<Rightarrow> Some (Failed err, log, c')
      | Some (Inr labeled, log, c') \<Rightarrow>
          (let uniqueStages = indexUniqueStages (indexExcludeStages inp) labeled in
           if int (length uniqueStages) \<le> thresholdInput inp then Some (Trimmed False, log, c')
           else (case toSorted byCreatedDate uniqueStages of
                   [] \<Rightarrow> Some (Failed TypeError, log, c')
                 | oldest # _ \<Rightarrow>
                     if dryRunInput inp then Some (Trimmed False, log, c')
                     else
                       (let command = UpdateSecretVersionStageCommand (secretIdInput inp)
                                        (stage oldest) (versionId oldest) in
                        case send c' command of
                          (Inl err, c'') \<Rightarrow> Some (Failed err, log @ [(command, Some err)], c'')
                        | (Inr _, c'') \<Rightarrow> Some (Trimmed True, log @ [(command, None)], c'')))))"

section \<open>The test double\<close>

text \<open>
  \<^verbatim>\<open>MockSecretsManagerClient\<close> of the test file: it serves \<^verbatim>\<open>listPages\<close> in order (the last
  one again when over-read), records every command in \<^verbatim>\<open>calls\<close> and throws on an update when
  \<^verbatim>\<open>failOnUpdate\<close> is set.
\<close>

record mock_client =
  listPages :: "response list"
  failOnUpdate :: bool
  calls :: "command list"
  pageIndex :: nat

definition newMock :: "response list \<Rightarrow> bool \<Rightarrow> mock_client" where
  "newMock pages fails = \<lparr>listPages = pages, failOnUpdate = fails, calls = [], pageIndex = 0\<rparr>"

definition mockPage :: "mock_client \<Rightarrow> response" where
  "mockPage m =
     (if listPages m = [] then \<lparr>Versions = Some [], NextToken = None\<rparr>
      else listPages m ! min (pageIndex m) (length (listPages m) - 1))"

fun mockSend :: "mock_client \<Rightarrow> command \<Rightarrow> (js_error + response) \<times> mock_client" where
  "mockSend m (ListSecretVersionIdsCommand sid dep tok n) =
     (Inr \<lparr>Versions = Some (case Versions (mockPage m) of Some vs \<Rightarrow> vs | None \<Rightarrow> []),
           NextToken = NextToken (mockPage m)\<rparr>,
      m\<lparr>calls := calls m @ [ListSecretVersionIdsCommand sid dep tok n],
        pageIndex := pageIndex m + 1\<rparr>)"
| "mockSend m (UpdateSecretVersionStageCommand sid s v) =
     (if failOnUpdate m
      then (Inl (ClientError ''MockUpdateError'' ''Update failed (simulated)''),
            m\<lparr>calls := calls m @ [UpdateSecretVersionStageCommand sid s v]\<rparr>)
      else (Inr \<lparr>Versions = None, NextToken = None\<rparr>,
            m\<lparr>calls := calls m @ [UpdateSecretVersionStageCommand sid s v]\<rparr>))"

text \<open>\<^verbatim>\<open>makeVersion(versionId, created, stages)\<close> of the test file.\<close>

definition makeVersion :: "string \<Rightarrow> timestamp \<Rightarrow> string list \<Rightarrow> version_entry" where
  "makeVersion vid created stages =
     \<lparr>VersionId = vid, CreatedDate = Some created, VersionStages = Some stages\<rparr>"

section \<open>Scenarios of the test file\<close>

text \<open>
  The pages and options of the tests, with the dates as time values (2024-01-01 is
  1704067200000, a day is 86400000), a page holding only the current version, and a client
  whose listing call is rejected.
\<close>

definition overThresholdPages :: "response list" where
  "overThresholdPages =
     [\<lparr>Versions = Some [makeVersion ''v1'' 1704067200000 [''stage-a''],
                        makeVersion ''v2'' 1704240000000 [''stage-b''],
                        makeVersion ''v3'' 1704153600000 [''AWSCURRENT'']],
       NextToken = None\<rparr>]"

definition paginatedPages :: "response list" where
  "paginatedPages =
     [\<lparr>Versions = Some [makeVersion ''v1'' 1704067200000 [''s1''],
                        makeVersion ''v2'' 1704153600000 [''s2'']],
       NextToken = Some ''next-1''\<rparr>,
      \<lparr>Versions = Some [makeVersion ''v3'' 1704240000000 [''s3''],
                        makeVersion ''v4'' 1704326400000 [''AWSCURRENT'']],
       NextToken = None\<rparr>]"

definition atThresholdPages :: "response list" where
  "atThresholdPages =
     [\<lparr>Versions = Some [makeVersion ''v1'' 1704067200000 [''custom-1''],
                        makeVersion ''v2'' 1704153600000 [''AWSCURRENT'']],
       NextToken = None\<rparr>]"

definition currentOnlyPages :: "response list" where
  "currentOnlyPages =
     [\<lparr>Versions = Some [makeVersion ''v1'' 1704067200000 [''AWSCURRENT'']], NextToken = None\<rparr>]"

definition testOptions :: "int \<Rightarrow> bool option \<Rightarrow> trim_options" where
  "testOptions thr dry =
     \<lparr>secretId = ''my/secret'', threshold = Some thr, excludeStages = None, dryRun = dry\<rparr>"

definition noInputs :: action_inputs where
  "noInputs = \<lparr>secretIdInput = ''my/secret'', thresholdInput = 0, dryRunInput = False,
                excludeStagesInput = []\<rparr>"

definition listedInputs :: action_inputs where
  "listedInputs = \<lparr>secretIdInput = ''my/secret'', thresholdInput = 1, dryRunInput = False,
                    excludeStagesInput = ''AWSCURRENT, AWSPREVIOUS,AWSPENDING''\<rparr>"

definition brokenSend :: "unit \<Rightarrow> command \<Rightarrow> (js_error + response) \<times> unit" where
  "brokenSend c cmd =
     (if isUpdate cmd then (Inr \<lparr>Versions = None, NextToken = None\<rparr>, c)
      else (Inl (ClientError ''AccessDeniedException'' ''not authorized''), c))"

text \<open>A client whose first listing call returns a page with a token and whose second is rejected.\<close>

definition flakyPage :: response where
  "flakyPage = \<lparr>Versions = Some [makeVersion ''v1'' 1704067200000 [''s1'']],
                 NextToken = Some ''next-1''\<rparr>"

definition flakySend :: "nat \<Rightarrow> command \<Rightarrow> (js_error + response) \<times> nat" where
  "flakySend n cmd =
     (if isUpdate cmd then (Inr \<lparr>Versions = None, NextToken = None\<rparr>, n)
      else if n = 0 then (Inr flakyPage, Suc n)
      else (Inl (ClientError ''ThrottlingException'' ''rate exceeded''), Suc n))"

section \<open>Predicates of the specification\<close>

text \<open>
  The service answers the token-chained listing calls, from client state \<open>c\<close> and token
  \<open>tok\<close> on, with exactly the given pages, none of them an error.
\<close>

fun servesPages :: "'c client \<Rightarrow> string \<Rightarrow> 'c \<Rightarrow> string option \<Rightarrow> response list \<Rightarrow> bool" where
  "servesPages send sid c tok [] = True"
| "servesPages send sid c tok (p # ps) =
     (case send c (ListSecretVersionIdsCommand sid True tok 100) of
        (Inl e, c') \<Rightarrow> False
      | (Inr resp, c') \<Rightarrow> resp = p \<and> servesPages send sid c' (NextToken p) ps)"

text \<open>
  The service answers the token-chained listing calls, from client state \<open>c\<close> and token
  \<open>tok\<close> on, with the given pages, each carrying a non-empty token, and rejects the call
  after them with the error \<open>e\<close>, leaving the client in state \<open>cF\<close>. With no pages the
  first call is the one rejected.
\<close>

fun failsAfter ::
  "'c client \<Rightarrow> string \<Rightarrow> 'c \<Rightarrow> string option \<Rightarrow> response list \<Rightarrow> js_error \<Rightarrow> 'c \<Rightarrow> bool" where
  "failsAfter send sid c tok [] e cF =
     (send c (ListSecretVersionIdsCommand sid True tok 100) = (Inl e, cF))"
| "failsAfter send sid c tok (p # ps) e cF =
     (case send c (ListSecretVersionIdsCommand sid True tok 100) of
        (Inl e', c') \<Rightarrow> False
      | (Inr resp, c') \<Rightarrow>
          resp = p \<and> truthy (NextToken p) \<and> failsAfter send sid c' (NextToken p) ps e cF)"

text \<open>A stage map is keyed properly: no key twice, every record under its own stage.\<close>

definition keyed :: "stage_map \<Rightarrow> bool" where
  "keyed m = (distinct (map fst m) \<and> (\<forall>(k, v)\<in>set m. stage v = k))"

text \<open>
  \<open>r\<close> is, among the records of \<open>labeled\<close> with stage \<open>s\<close>, the first one of the latest
  creation date.
\<close>

definition firstLatest :: "label_record list \<Rightarrow> string \<Rightarrow> label_record \<Rightarrow> bool" where
  "firstLatest labeled s r =
     (\<exists>before after. labeled = before @ r # after \<and> stage r = s \<and>
        (\<forall>b\<in>set before. stage b = s \<longrightarrow> createdDate b < createdDate r) \<and>
        (\<forall>a\<in>set after. stage a = s \<longrightarrow> createdDate a \<le> createdDate r))"

section \<open>Facts about the selector\<close>

lemma insertSorted_ne: "insertSorted cmp x ys \<noteq> []"
  by (cases ys) auto

lemma toSorted_Nil: "toSorted cmp [] = []"
  by (simp add: toSorted_def)

lemma toSorted_Cons: "toSorted cmp (x # xs) = insertSorted cmp x (toSorted cmp xs)"
  by (simp add: toSorted_def)

lemma toSorted_ne: "xs \<noteq> [] \<Longrightarrow> toSorted cmp xs \<noteq> []"
  by (cases xs) (auto simp: toSorted_Cons insertSorted_ne)

lemma insertSorted_insort: "insertSorted byCreatedDate x ys = insort_key createdDate x ys"
  by (induction ys) (auto simp: byCreatedDate_def)

lemma toSorted_sort_key: "toSorted byCreatedDate xs = sort_key createdDate xs"
  by (induction xs) (auto simp: toSorted_Nil toSorted_Cons insertSorted_insort)

lemma toSorted_sorted: "sorted (map createdDate (toSorted byCreatedDate xs))"
  by (simp add: toSorted_sort_key)

lemma toSorted_stable:
  "filter (\<lambda>r. createdDate r = d) (toSorted byCreatedDate xs) =
   filter (\<lambda>r. createdDate r = d) xs"
  by (simp add: toSorted_sort_key sort_key_stable)

lemma toSorted_head:
  "xs \<noteq> [] \<Longrightarrow>
   \<exists>before oldest after rest. xs = before @ oldest # after \<and>
     toSorted byCreatedDate xs = oldest # rest \<and>
     (\<forall>b\<in>set before. createdDate oldest < createdDate b) \<and>
     (\<forall>a\<in>set after. createdDate oldest \<le> createdDate a)"
proof (induction xs)
  case Nil
  then show ?case by simp
next
  case (Cons x xs)
  show ?case
  proof (cases "xs = []")
    case True
    then have "x # xs = [] @ x # []" "toSorted byCreatedDate (x # xs) = x # []"
      by (simp_all add: toSorted_Cons toSorted_Nil)
    then show ?thesis by fastforce
  next
    case False
    from Cons.IH [OF False] obtain before oldest after rest where
      xs: "xs = before @ oldest # after" and
      s: "toSorted byCreatedDate xs = oldest # rest" and
      b: "\<forall>b\<in>set before. createdDate oldest < createdDate b" and
      a: "\<forall>a\<in>set after. createdDate oldest \<le> createdDate a"
      by blast
    show ?thesis
    proof (cases "createdDate x \<le> createdDate oldest")
      case True
      have "x # xs = [] @ x # xs" by simp
      moreover have "toSorted byCreatedDate (x # xs) = x # oldest # rest"
        using True s by (simp add: toSorted_Cons byCreatedDate_def)
      moreover have "\<forall>a\<in>set xs. createdDate x \<le> createdDate a"
        using True xs a b by fastforce
      ultimately show ?thesis by (metis empty_iff list.set(1))
    next
      case False
      have "x # xs = (x # before) @ oldest # after" using xs by simp
      moreover have "toSorted byCreatedDate (x # xs) = oldest # insertSorted byCreatedDate x rest"
        using False s by (simp add: toSorted_Cons byCreatedDate_def)
      moreover have "\<forall>b\<in>set (x # before). createdDate oldest < createdDate b"
        using False b by auto
      ultimately show ?thesis using a by blast
    qed
  qed
qed

lemma pick_None_iff:
  "pickOldestStageToDeprecate stages thr = None \<longleftrightarrow> int (length stages) \<le> thr \<or> stages = []"
  using toSorted_ne [of stages byCreatedDate]
  by (auto simp: pickOldestStageToDeprecate_def toSorted_Nil split: list.splits)

section \<open>Facts about the stage map\<close>

lemma map_of_mapSet: "map_of (mapSet m k v) = (map_of m)(k \<mapsto> v)"
  by (induction m k v rule: mapSet.induct) (auto simp: fun_eq_iff)

lemma fst_mapSet: "fst ` set (mapSet m k v) = insert k (fst ` set m)"
  by (induction m k v rule: mapSet.induct) auto

lemma distinct_mapSet: "distinct (map fst m) \<Longrightarrow> distinct (map fst (mapSet m k v))"
  by (induction m k v rule: mapSet.induct) (auto simp: fst_mapSet)

lemma set_mapSet: "set (mapSet m k v) \<subseteq> insert (k, v) (set m)"
  by (induction m k v rule: mapSet.induct) auto

lemma keyed_Nil: "keyed []"
  by (simp add: keyed_def)

lemma keyed_mapSet: "keyed m \<Longrightarrow> keyed (mapSet m (stage e) e)"
  unfolding keyed_def using set_mapSet [of m "stage e" e] distinct_mapSet [of m "stage e" e]
  by auto

lemma keyed_keepLatest: "keyed m \<Longrightarrow> keyed (keepLatest m e)"
  by (simp add: keepLatest_def keyed_mapSet split: option.splits)

lemma keyed_latestStep: "keyed m \<Longrightarrow> keyed (latestStep ex m e)"
  by (simp add: latestStep_def keyed_keepLatest)

lemma keyed_foldl: "keyed m \<Longrightarrow> keyed (foldl (latestStep ex) m xs)"
  by (induction xs arbitrary: m) (simp_all add: keyed_latestStep)

lemma keyed_latestByStage: "keyed (latestByStage ex labeled)"
  by (simp add: latestByStage_def keyed_foldl keyed_Nil)

lemma latestByStage_snoc:
  "latestByStage ex (labeled @ [e]) = latestStep ex (latestByStage ex labeled) e"
  by (simp add: latestByStage_def)

lemma firstLatest_snoc_other:
  "firstLatest labeled s r \<Longrightarrow> stage e \<noteq> s \<or> createdDate e \<le> createdDate r \<Longrightarrow> firstLatest (labeled @ [e]) s r"
  unfolding firstLatest_def
  apply (elim exE conjE)
  subgoal for before after
    by (rule exI [of _ before], rule exI [of _ "after @ [e]"]) auto
  done

lemma firstLatest_snoc_new:
  "\<forall>x\<in>set labeled. stage x = stage e \<longrightarrow> createdDate x < createdDate e \<Longrightarrow>
   firstLatest (labeled @ [e]) (stage e) e"
  unfolding firstLatest_def
  by (rule exI [of _ labeled], rule exI [of _ "[]"]) auto

lemma firstLatest_bound:
  "firstLatest labeled s r \<Longrightarrow> x \<in> set labeled \<Longrightarrow> stage x = s \<Longrightarrow> createdDate x \<le> createdDate r"
  unfolding firstLatest_def by force

lemma mapGet_mapSet: "mapGet (mapSet m k v) s = (if s = k then Some v else mapGet m s)"
  by (simp add: mapGet_def map_of_mapSet)

lemma latestByStage_inv:
  "(\<forall>s. s \<notin> ex \<and> s \<in> stage ` set labeled \<longrightarrow>
        (\<exists>r. mapGet (latestByStage ex labeled) s = Some r \<and> firstLatest labeled s r)) \<and>
   (\<forall>s. s \<in> ex \<or> s \<notin> stage ` set labeled \<longrightarrow> mapGet (latestByStage ex labeled) s = None)"
proof (induction labeled rule: rev_induct)
  case Nil
  then show ?case by (simp add: latestByStage_def mapGet_def)
next
  case (snoc e labeled)
  let ?m = "latestByStage ex labeled"
  show ?case
  proof (cases "stage e \<in> ex")
    case True
    then have m: "latestByStage ex (labeled @ [e]) = ?m"
      by (simp add: latestByStage_snoc latestStep_def)
    show ?thesis unfolding m
      using snoc.IH True firstLatest_snoc_other [of labeled _ _ e] by fastforce
  next
    case False
    show ?thesis
    proof (cases "mapGet ?m (stage e)")
      case None
      then have fresh: "stage e \<notin> stage ` set labeled"
        using snoc.IH False by fastforce
      have m: "latestByStage ex (labeled @ [e]) = mapSet ?m (stage e) e"
        using False None by (simp add: latestByStage_snoc latestStep_def keepLatest_def)
      have new: "firstLatest (labeled @ [e]) (stage e) e"
        by (intro firstLatest_snoc_new ballI impI) (metis fresh imageI)
      show ?thesis unfolding m
        using snoc.IH False new firstLatest_snoc_other [of labeled _ _ e]
        by (auto simp: mapGet_mapSet)
    next
      case (Some prev)
      then have prev: "firstLatest labeled (stage e) prev"
        using snoc.IH False by (metis option.distinct(1) option.inject)
      show ?thesis
      proof (cases "createdDate e > createdDate prev")
        case True
        have m: "latestByStage ex (labeled @ [e]) = mapSet ?m (stage e) e"
          using False Some True by (simp add: latestByStage_snoc latestStep_def keepLatest_def)
        have new: "firstLatest (labeled @ [e]) (stage e) e"
          using firstLatest_bound [OF prev] True by (intro firstLatest_snoc_new) force
        show ?thesis unfolding m
          using snoc.IH False new firstLatest_snoc_other [of labeled _ _ e]
          by (auto simp: mapGet_mapSet)
      next
        case older: False
        have m: "latestByStage ex (labeled @ [e]) = ?m"
          using False Some older by (simp add: latestByStage_snoc latestStep_def keepLatest_def)
        have keep: "firstLatest (labeled @ [e]) (stage e) prev"
          using prev older by (intro firstLatest_snoc_other) auto
        show ?thesis unfolding m
          using snoc.IH False Some keep firstLatest_snoc_other [of labeled _ _ e]
          by (auto simp: image_iff) metis+
      qed
    qed
  qed
qed

lemma keyed_filter:
  "keyed m \<Longrightarrow> mapGet m s = Some r \<Longrightarrow> filter (\<lambda>x. stage x = s) (map snd m) = [r]"
  unfolding keyed_def mapGet_def
proof (induction m)
  case Nil
  then show ?case by simp
next
  case (Cons p m)
  obtain k v where p: "p = (k, v)" by (cases p)
  show ?case
  proof (cases "k = s")
    case True
    with Cons.prems p have "v = r" "\<forall>x\<in>set (map snd m). stage x \<noteq> s"
      by (force simp: image_iff)+
    with True Cons.prems p show ?thesis by (auto simp: filter_empty_conv)
  next
    case False
    with Cons p show ?thesis by auto
  qed
qed

lemma keyed_member: "keyed m \<Longrightarrow> r \<in> set (map snd m) \<Longrightarrow> mapGet m (stage r) \<noteq> None"
  unfolding keyed_def mapGet_def by (force simp: map_of_eq_None_iff image_iff)

lemma uniqueStagesOf_not_excluded:
  assumes "r \<in> set (uniqueStagesOf ex labeled)"
  shows "stage r \<notin> ex"
proof
  assume "stage r \<in> ex"
  then have "mapGet (latestByStage ex labeled) (stage r) = None"
    using latestByStage_inv [of ex labeled] by blast
  moreover have "mapGet (latestByStage ex labeled) (stage r) \<noteq> None"
    using assms keyed_member [OF keyed_latestByStage] by (simp add: uniqueStagesOf_def)
  ultimately show False by simp
qed

lemma foldl_latestStep_filter:
  "foldl (latestStep ex) m xs = foldl keepLatest m (filter (\<lambda>entry. stage entry \<notin> ex) xs)"
  by (induction xs arbitrary: m) (simp_all add: latestStep_def)

lemma keyed_restage: "keyed m \<Longrightarrow> map (\<lambda>(s, data). data\<lparr>stage := s\<rparr>) m = map snd m"
  unfolding keyed_def by (induction m) auto

lemma indexUniqueStages_eq: "indexUniqueStages ex labeled = uniqueStagesOf ex labeled"
  using keyed_restage [OF keyed_latestByStage, of ex labeled]
  by (simp add: indexUniqueStages_def uniqueStagesOf_def latestByStage_def foldl_latestStep_filter)

section \<open>Facts about the collector\<close>

lemma collect_err:
  "send c (ListSecretVersionIdsCommand sid True tok 100) = (Inl e, c') \<Longrightarrow>
   collectLabeled send sid tok labeled log c =
     Some (Inl e, log @ [(ListSecretVersionIdsCommand sid True tok 100, Some e)], c')"
  by (subst collectLabeled.simps) simp

lemma collect_last:
  "send c (ListSecretVersionIdsCommand sid True tok 100) = (Inr resp, c') \<Longrightarrow>
   \<not> truthy (NextToken resp) \<Longrightarrow>
   collectLabeled send sid tok labeled log c =
     Some (Inr (labeled @ labelsOfResponse resp),
           log @ [(ListSecretVersionIdsCommand sid True tok 100, None)], c')"
  by (subst collectLabeled.simps) simp

lemma collect_more:
  "send c (ListSecretVersionIdsCommand sid True tok 100) = (Inr resp, c') \<Longrightarrow>
   truthy (NextToken resp) \<Longrightarrow>
   collectLabeled send sid tok labeled log c =
     collectLabeled send sid (NextToken resp) (labeled @ labelsOfResponse resp)
       (log @ [(ListSecretVersionIdsCommand sid True tok 100, None)]) c'"
  by (subst collectLabeled.simps) simp

lemma collect_pages:
  "servesPages send sid c tok pages \<Longrightarrow> pages \<noteq> [] \<Longrightarrow>
   \<forall>p\<in>set (butlast pages). truthy (NextToken p) \<Longrightarrow> \<not> truthy (NextToken (last pages)) \<Longrightarrow>
   \<exists>c'. collectLabeled send sid tok labeled log c =
     Some (Inr (labeled @ concat (map labelsOfResponse pages)),
           log @ map (\<lambda>t. (ListSecretVersionIdsCommand sid True t 100, None))
                  (tok # map NextToken (butlast pages)), c')"
proof (induction pages arbitrary: c tok labeled log)
  case Nil
  then show ?case by simp
next
  case (Cons p ps)
  from Cons.prems(1) obtain c1 where
    send: "send c (ListSecretVersionIdsCommand sid True tok 100) = (Inr p, c1)" and
    rest: "servesPages send sid c1 (NextToken p) ps"
    by (auto split: prod.splits sum.splits)
  show ?case
  proof (cases "ps = []")
    case True
    with Cons.prems(4) have "\<not> truthy (NextToken p)" by simp
    with send have "collectLabeled send sid tok labeled log c =
        Some (Inr (labeled @ labelsOfResponse p),
              log @ [(ListSecretVersionIdsCommand sid True tok 100, None)], c1)"
      by (rule collect_last)
    with True show ?thesis by simp
  next
    case False
    with Cons.prems(3) have more: "truthy (NextToken p)" by simp
    from False Cons.prems have "\<forall>q\<in>set (butlast ps). truthy (NextToken q)"
      "\<not> truthy (NextToken (last ps))" by simp_all
    from Cons.IH [OF rest False this] obtain c' where
      "collectLabeled send sid (NextToken p) (labeled @ labelsOfResponse p)
         (log @ [(ListSecretVersionIdsCommand sid True tok 100, None)]) c1 =
       Some (Inr ((labeled @ labelsOfResponse p) @ concat (map labelsOfResponse ps)),
             (log @ [(ListSecretVersionIdsCommand sid True tok 100, None)]) @
               map (\<lambda>t. (ListSecretVersionIdsCommand sid True t 100, None))
                 (NextToken p # map NextToken (butlast ps)), c')"
      by blast
    moreover from send more have "collectLabeled send sid tok labeled log c =
        collectLabeled send sid (NextToken p) (labeled @ labelsOfResponse p)
          (log @ [(ListSecretVersionIdsCommand sid True tok 100, None)]) c1"
      by (rule collect_more)
    ultimately show ?thesis using False by simp
  qed
qed

lemma collect_log_aux:
  assumes "collectLabeled send sid tok labeled log c = Some y"
  shows "\<exists>new. fst (snd y) = log @ new \<and> new \<noteq> [] \<and> (\<forall>x\<in>set new. \<not> isUpdate (fst x)) \<and>
     (\<forall>x\<in>set (butlast new). snd x = None) \<and>
     (case fst y of Inl e \<Rightarrow> snd (last new) = Some e | Inr _ \<Rightarrow> snd (last new) = None)"
proof (rule collectLabeled.raw_induct
    [where P = "\<lambda>_ _ _ _ log _ y. \<exists>new. fst (snd y) = log @ new \<and> new \<noteq> [] \<and>
       (\<forall>x\<in>set new. \<not> isUpdate (fst x)) \<and> (\<forall>x\<in>set (butlast new). snd x = None) \<and>
       (case fst y of Inl e \<Rightarrow> snd (last new) = Some e | Inr _ \<Rightarrow> snd (last new) = None)",
     OF _ assms], goal_cases)
  case (1 f send sid tok labeled log c y)
  let ?cmd = "ListSecretVersionIdsCommand sid True tok 100"
  obtain out c1 where send: "send c ?cmd = (out, c1)" by (cases "send c ?cmd")
  show ?case
  proof (cases out)
    case (Inl e)
    with 1(2) send have "y = (Inl e, log @ [(?cmd, Some e)], c1)" by auto
    then show ?thesis by simp
  next
    case (Inr resp)
    show ?thesis
    proof (cases "truthy (NextToken resp)")
      case True
      with 1(2) send Inr have "f send sid (NextToken resp)
          (labeled @ labelsOfResponse resp) (log @ [(?cmd, None)]) c1 = Some y"
        by simp
      from 1(1) [OF this] obtain new where
        new: "fst (snd y) = (log @ [(?cmd, None)]) @ new" "new \<noteq> []"
          "\<forall>x\<in>set new. \<not> isUpdate (fst x)"
          "\<forall>x\<in>set (butlast new). snd x = None"
          "case fst y of Inl e \<Rightarrow> snd (last new) = Some e | Inr _ \<Rightarrow> snd (last new) = None"
        by blast
      show ?thesis
        using new by (intro exI [of _ "(?cmd, None) # new"]) (auto split: sum.splits)
    next
      case False
      with 1(2) send Inr have "y = (Inr (labeled @ labelsOfResponse resp), log @ [(?cmd, None)], c1)"
        by auto
      then show ?thesis by simp
    qed
  qed
qed

lemma collect_log:
  "collectLabeled send sid tok labeled log c = Some (r, log', c') \<Longrightarrow>
   \<exists>new. log' = log @ new \<and> new \<noteq> [] \<and> (\<forall>x\<in>set new. \<not> isUpdate (fst x)) \<and>
     (\<forall>x\<in>set (butlast new). snd x = None) \<and>
     (case r of Inl e \<Rightarrow> snd (last new) = Some e | Inr _ \<Rightarrow> snd (last new) = None)"
  using collect_log_aux [of send sid tok labeled log c "(r, log', c')"] by simp

section \<open>Facts about the run\<close>

lemma set_insertSorted: "set (insertSorted cmp x ys) = insert x (set ys)"
  by (induction ys) auto

lemma set_toSorted: "set (toSorted cmp xs) = set xs"
  by (induction xs) (auto simp: toSorted_Nil toSorted_Cons set_insertSorted)

lemma pick_in_set: "pickOldestStageToDeprecate stages thr = Some r \<Longrightarrow> r \<in> set stages"
  using set_toSorted [of byCreatedDate stages]
  by (auto simp: pickOldestStageToDeprecate_def split: if_splits list.splits)

lemma pick_Some_over:
  "pickOldestStageToDeprecate stages thr = Some r \<Longrightarrow> thr < int (length stages)"
  by (auto simp: pickOldestStageToDeprecate_def split: if_splits)

lemma pick_not_excluded:
  "pickOldestStageToDeprecate (uniqueStagesOf ex labeled) thr = Some candidate \<Longrightarrow>
   stage candidate \<notin> ex"
  using pick_in_set uniqueStagesOf_not_excluded by blast

lemma trim_collected:
  "collectLabeled send (secretId opts) None [] [] c = Some (Inr labeled, listLog, c1) \<Longrightarrow>
   trimStagesWithClient send c opts = Some (decide send opts labeled listLog c1)"
  by (simp add: trimStagesWithClient_def)

lemma trim_cases:
  assumes "trimStagesWithClient send c opts = Some (res, log, c')"
  obtains (failed) e where "collectLabeled send (secretId opts) None [] [] c = Some (Inl e, log, c')"
      "res = Inl e"
    | (collected) labeled listLog c1 where
      "collectLabeled send (secretId opts) None [] [] c = Some (Inr labeled, listLog, c1)"
      "decide send opts labeled listLog c1 = (res, log, c')"
  using assms by (auto simp: trimStagesWithClient_def split: option.splits sum.splits)

lemma collect_lists_only:
  assumes "collectLabeled send sid None [] [] c = Some (r, log, c')"
  shows "\<forall>x\<in>set log. \<not> isUpdate (fst x)"
  using collect_log [OF assms] by auto

lemma butlast_or_last: "x \<in> set xs \<Longrightarrow> x \<in> set (butlast xs) \<or> last xs = x"
  by (induction xs) (auto split: if_splits)

lemma collect_ok_quiet:
  assumes "collectLabeled send sid None [] [] c = Some (Inr labeled, log, c')"
  shows "\<forall>x\<in>set log. snd x = None"
proof -
  from collect_log [OF assms] have ne: "log \<noteq> []" and
    b: "\<forall>x\<in>set (butlast log). snd x = None" and l: "snd (last log) = None"
    by auto
  show ?thesis using b l butlast_or_last [of _ log] by blast
qed

lemma collect_failed_last:
  assumes "collectLabeled send sid None [] [] c = Some (Inl e, log, c')"
  shows "\<forall>cmd e'. (cmd, Some e') \<in> set log \<longrightarrow> e' = e"
proof -
  from collect_log [OF assms] have ne: "log \<noteq> []" and
    b: "\<forall>x\<in>set (butlast log). snd x = None" and l: "snd (last log) = Some e"
    by auto
  show ?thesis
  proof (intro allI impI)
    fix cmd e' assume "(cmd, Some e') \<in> set log"
    from butlast_or_last [OF this] b l show "e' = e" by auto
  qed
qed

lemma excludeStagesOf_dryRun [simp]: "excludeStagesOf (opts\<lparr>dryRun := d\<rparr>) = excludeStagesOf opts"
  by (simp add: excludeStagesOf_def)

lemma thresholdOf_dryRun [simp]: "thresholdOf (opts\<lparr>dryRun := d\<rparr>) = thresholdOf opts"
  by (simp add: thresholdOf_def)

lemma decide_cases:
  assumes "decide send opts labeled listLog c1 = (res, log, c')"
  shows "(log = listLog \<and> (\<exists>r. res = Inr r \<and> \<not> trimmed r)) \<or>
         (\<exists>cmd. isUpdate cmd \<and>
            ((\<exists>e. log = listLog @ [(cmd, Some e)] \<and> res = Inl e) \<or>
             (log = listLog @ [(cmd, None)] \<and> (\<exists>r. res = Inr r))))"
proof (cases "pickOldestStageToDeprecate (uniqueStagesOf (excludeStagesOf opts) labeled)
                (thresholdOf opts)")
  case None
  with assms show ?thesis by (auto simp: decide_def)
next
  case (Some candidate)
  let ?cmd = "UpdateSecretVersionStageCommand (secretId opts) (stage candidate) (versionId candidate)"
  show ?thesis
  proof (cases "dryRunOf opts")
    case True
    with assms Some show ?thesis by (auto simp: decide_def)
  next
    case False
    obtain out c2 where send: "send c1 ?cmd = (out, c2)" by (cases "send c1 ?cmd")
    show ?thesis
    proof (cases out)
      case (Inl e)
      with assms Some False send have "log = listLog @ [(?cmd, Some e)]" "res = Inl e"
        by (auto simp: decide_def)
      then show ?thesis by (metis isUpdate.simps(1))
    next
      case (Inr resp)
      with assms Some False send have "log = listLog @ [(?cmd, None)]" "\<exists>r. res = Inr r"
        by (auto simp: decide_def)
      then show ?thesis by (metis isUpdate.simps(1))
    qed
  qed
qed

lemma decide_update:
  assumes "decide send opts labeled listLog c1 = (res, log, c')"
    and "\<forall>x\<in>set listLog. \<not> isUpdate (fst x)"
    and "(UpdateSecretVersionStageCommand sid s v, out) \<in> set log"
  shows "\<exists>candidate. pickOldestStageToDeprecate (uniqueStagesOf (excludeStagesOf opts) labeled)
           (thresholdOf opts) = Some candidate \<and> s = stage candidate"
  using assms
  by (force simp: decide_def Let_def split: option.splits if_splits prod.splits sum.splits)

lemma decide_removed:
  assumes "decide send opts labeled listLog c1 = (Inr r, log, c')" and "removed r = Some (s, v)"
  shows "\<exists>candidate. pickOldestStageToDeprecate (uniqueStagesOf (excludeStagesOf opts) labeled)
           (thresholdOf opts) = Some candidate \<and> s = stage candidate"
  using assms
  by (force simp: decide_def Let_def split: option.splits if_splits prod.splits sum.splits)

lemma indexRun_cases:
  assumes "indexRun send c inp = Some (out, log, c')"
  obtains (failed) e where
      "collectLabeled send (secretIdInput inp) None [] [] c = Some (Inl e, log, c')"
    | (quiet) labeled c1 where
      "collectLabeled send (secretIdInput inp) None [] [] c = Some (Inr labeled, log, c1)"
    | (updated) labeled listLog c1 oldest rest outcome where
      "collectLabeled send (secretIdInput inp) None [] [] c = Some (Inr labeled, listLog, c1)"
      "toSorted byCreatedDate (indexUniqueStages (indexExcludeStages inp) labeled) = oldest # rest"
      "log = listLog @ [(UpdateSecretVersionStageCommand (secretIdInput inp) (stage oldest)
                           (versionId oldest), outcome)]"
  using assms unfolding indexRun_def Let_def
  by (auto split: option.splits sum.splits if_splits list.splits prod.splits)

lemma prefix_split:
  "length xs = n \<Longrightarrow> take n (xs @ ys) = xs \<and> set (drop n (xs @ ys)) = set ys"
  by auto

lemma collect_fails:
  "failsAfter send sid c tok pages e cF \<Longrightarrow>
   collectLabeled send sid tok labeled log c =
     Some (Inl e,
           log @ map (\<lambda>t. (ListSecretVersionIdsCommand sid True t 100, None))
                   (butlast (tok # map NextToken pages)) @
             [(ListSecretVersionIdsCommand sid True (last (tok # map NextToken pages)) 100, Some e)],
           cF)"
proof (induction pages arbitrary: c tok labeled log)
  case Nil
  then have "send c (ListSecretVersionIdsCommand sid True tok 100) = (Inl e, cF)" by simp
  then have "collectLabeled send sid tok labeled log c =
      Some (Inl e, log @ [(ListSecretVersionIdsCommand sid True tok 100, Some e)], cF)"
    by (rule collect_err)
  then show ?case by simp
next
  case (Cons p ps)
  from Cons.prems obtain c1 where
    send: "send c (ListSecretVersionIdsCommand sid True tok 100) = (Inr p, c1)" and
    more: "truthy (NextToken p)" and
    rest: "failsAfter send sid c1 (NextToken p) ps e cF"
    by (auto split: prod.splits sum.splits)
  from send more have "collectLabeled send sid tok labeled log c =
      collectLabeled send sid (NextToken p) (labeled @ labelsOfResponse p)
        (log @ [(ListSecretVersionIdsCommand sid True tok 100, None)]) c1"
    by (rule collect_more)
  with Cons.IH [OF rest, of "labeled @ labelsOfResponse p"
      "log @ [(ListSecretVersionIdsCommand sid True tok 100, None)]"]
  show ?case by simp
qed

lemma trim_listing_fails:
  assumes "failsAfter send (secretId opts) c None pages e cF"
  shows "\<exists>log. trimStagesWithClient send c opts = Some (Inl e, log, cF) \<and>
      log = map (\<lambda>t. (ListSecretVersionIdsCommand (secretId opts) True t 100, None))
                (butlast (None # map NextToken pages)) @
            [(ListSecretVersionIdsCommand (secretId opts) True (last (None # map NextToken pages)) 100,
              Some e)] \<and>
      length log = Suc (length pages) \<and> (\<forall>x\<in>set log. \<not> isUpdate (fst x))"
proof -
  let ?log = "map (\<lambda>t. (ListSecretVersionIdsCommand (secretId opts) True t 100, None))
                (butlast (None # map NextToken pages)) @
            [(ListSecretVersionIdsCommand (secretId opts) True (last (None # map NextToken pages)) 100,
              Some e)]"
  from collect_fails [OF assms, of "[]" "[]"]
  have col: "collectLabeled send (secretId opts) None [] [] c = Some (Inl e, ?log, cF)" by simp
  then have "trimStagesWithClient send c opts = Some (Inl e, ?log, cF)"
    by (simp add: trimStagesWithClient_def)
  moreover have "length ?log = Suc (length pages)" by simp
  moreover have "\<forall>x\<in>set ?log. \<not> isUpdate (fst x)"
    using collect_lists_only [OF col] .
  ultimately show ?thesis by blast
qed

lemma trim_update_fails:
  assumes "collectLabeled send (secretId opts) None [] [] c = Some (Inr labeled, listLog, c1)"
    and "pickOldestStageToDeprecate (uniqueStagesOf (excludeStagesOf opts) labeled) (thresholdOf opts)
           = Some candidate"
    and "\<not> dryRunOf opts"
    and "send c1 (UpdateSecretVersionStageCommand (secretId opts) (stage candidate)
           (versionId candidate)) = (Inl e, c2)"
  shows "trimStagesWithClient send c opts =
           Some (Inl e, listLog @ [(UpdateSecretVersionStageCommand (secretId opts) (stage candidate)
                                      (versionId candidate), Some e)], c2)"
  using assms(2,3,4) by (simp add: trim_collected [OF assms(1)] decide_def)

lemma finished_run_errors:
  assumes "trimStagesWithClient send c opts = Some (res, log, c')"
  shows "(\<forall>cmd e. (cmd, Some e) \<in> set log \<longrightarrow>
            res = Inl e \<and> last log = (cmd, Some e) \<and>
            (\<not> isUpdate cmd \<longrightarrow> (\<forall>x\<in>set log. \<not> isUpdate (fst x)))) \<and>
         (\<forall>r. res = Inr r \<and> trimmed r \<longrightarrow> (\<forall>x\<in>set log. snd x = None))"
  using assms
proof (cases rule: trim_cases)
  case (failed e)
  have "last log = (cmd, Some e')" if "(cmd, Some e') \<in> set log" for cmd e'
    using butlast_or_last [OF that] collect_log [OF failed(1)] by auto
  then show ?thesis
    using failed(2) collect_failed_last [OF failed(1)] collect_lists_only [OF failed(1)]
    by blast
next
  case (collected labeled listLog c1)
  have q: "\<forall>x\<in>set listLog. snd x = None" and l: "\<forall>x\<in>set listLog. \<not> isUpdate (fst x)"
    using collect_ok_quiet [OF collected(1)] collect_lists_only [OF collected(1)] by auto
  from decide_cases [OF collected(2)] show ?thesis
  proof (elim disjE exE conjE)
    fix r assume "log = listLog" "res = Inr r" "\<not> trimmed r"
    with q show ?thesis by force
  next
    fix cmd e assume "isUpdate cmd" "log = listLog @ [(cmd, Some e)]" "res = Inl e"
    with q show ?thesis by force
  next
    fix cmd r assume "isUpdate cmd" "log = listLog @ [(cmd, None)]" "res = Inr r"
    with q show ?thesis by force
  qed
qed

section \<open>The scenarios, evaluated\<close>

lemmas mock_eval = Let_def newMock_def mockPage_def makeVersion_def labelsOfResponse_def
  labelsOfVersion_def

lemmas pure_eval = uniqueStagesOf_def latestByStage_def latestStep_def keepLatest_def mapGet_def
  defaultExcludeStages_def pickOldestStageToDeprecate_def toSorted_def byCreatedDate_def
  excludeStagesOf_def thresholdOf_def dryRunOf_def

lemma collect_overThreshold:
  "collectLabeled mockSend ''my/secret'' None [] [] (newMock overThresholdPages f) =
     Some (Inr [\<lparr>stage = ''stage-a'', versionId = ''v1'', createdDate = 1704067200000\<rparr>,
                \<lparr>stage = ''stage-b'', versionId = ''v2'', createdDate = 1704240000000\<rparr>,
                \<lparr>stage = ''AWSCURRENT'', versionId = ''v3'', createdDate = 1704153600000\<rparr>],
           [(ListSecretVersionIdsCommand ''my/secret'' True None 100, None)],
           \<lparr>listPages = overThresholdPages, failOnUpdate = f,
             calls = [ListSecretVersionIdsCommand ''my/secret'' True None 100], pageIndex = 1\<rparr>)"
  by (subst collectLabeled.simps)
     (simp add: Let_def newMock_def mockPage_def overThresholdPages_def makeVersion_def
        labelsOfResponse_def labelsOfVersion_def)

lemma unique_overThreshold:
  "uniqueStagesOf defaultExcludeStages
     [\<lparr>stage = ''stage-a'', versionId = ''v1'', createdDate = 1704067200000\<rparr>,
      \<lparr>stage = ''stage-b'', versionId = ''v2'', createdDate = 1704240000000\<rparr>,
      \<lparr>stage = ''AWSCURRENT'', versionId = ''v3'', createdDate = 1704153600000\<rparr>] =
     [\<lparr>stage = ''stage-a'', versionId = ''v1'', createdDate = 1704067200000\<rparr>,
      \<lparr>stage = ''stage-b'', versionId = ''v2'', createdDate = 1704240000000\<rparr>]"
  by (simp add: uniqueStagesOf_def latestByStage_def latestStep_def keepLatest_def mapGet_def
        defaultExcludeStages_def)

lemma pick_overThreshold:
  "pickOldestStageToDeprecate
     [\<lparr>stage = ''stage-a'', versionId = ''v1'', createdDate = 1704067200000\<rparr>,
      \<lparr>stage = ''stage-b'', versionId = ''v2'', createdDate = 1704240000000\<rparr>] 1 =
     Some \<lparr>stage = ''stage-a'', versionId = ''v1'', createdDate = 1704067200000\<rparr>"
  by (simp add: pickOldestStageToDeprecate_def toSorted_def byCreatedDate_def)

lemma collect_paginated:
  "collectLabeled mockSend ''my/secret'' None [] [] (newMock paginatedPages f) =
     Some (Inr [\<lparr>stage = ''s1'', versionId = ''v1'', createdDate = 1704067200000\<rparr>,
                \<lparr>stage = ''s2'', versionId = ''v2'', createdDate = 1704153600000\<rparr>,
                \<lparr>stage = ''s3'', versionId = ''v3'', createdDate = 1704240000000\<rparr>,
                \<lparr>stage = ''AWSCURRENT'', versionId = ''v4'', createdDate = 1704326400000\<rparr>],
           [(ListSecretVersionIdsCommand ''my/secret'' True None 100, None),
            (ListSecretVersionIdsCommand ''my/secret'' True (Some ''next-1'') 100, None)],
           \<lparr>listPages = paginatedPages, failOnUpdate = f,
             calls = [ListSecretVersionIdsCommand ''my/secret'' True None 100,
                      ListSecretVersionIdsCommand ''my/secret'' True (Some ''next-1'') 100],
             pageIndex = 2\<rparr>)"
  by (subst collectLabeled.simps, subst collectLabeled.simps)
     (simp add: Let_def newMock_def mockPage_def paginatedPages_def makeVersion_def
        labelsOfResponse_def labelsOfVersion_def)

lemma collect_atThreshold:
  "collectLabeled mockSend ''my/secret'' None [] [] (newMock atThresholdPages f) =
     Some (Inr [\<lparr>stage = ''custom-1'', versionId = ''v1'', createdDate = 1704067200000\<rparr>,
                \<lparr>stage = ''AWSCURRENT'', versionId = ''v2'', createdDate = 1704153600000\<rparr>],
           [(ListSecretVersionIdsCommand ''my/secret'' True None 100, None)],
           \<lparr>listPages = atThresholdPages, failOnUpdate = f,
             calls = [ListSecretVersionIdsCommand ''my/secret'' True None 100], pageIndex = 1\<rparr>)"
  by (subst collectLabeled.simps) (simp add: mock_eval atThresholdPages_def)

lemma unique_atThreshold:
  "uniqueStagesOf defaultExcludeStages
     [\<lparr>stage = ''custom-1'', versionId = ''v1'', createdDate = 1704067200000\<rparr>,
      \<lparr>stage = ''AWSCURRENT'', versionId = ''v2'', createdDate = 1704153600000\<rparr>] =
     [\<lparr>stage = ''custom-1'', versionId = ''v1'', createdDate = 1704067200000\<rparr>]"
  by (simp add: pure_eval)

lemma collect_currentOnly:
  "collectLabeled mockSend ''my/secret'' None [] [] (newMock currentOnlyPages f) =
     Some (Inr [\<lparr>stage = ''AWSCURRENT'', versionId = ''v1'', createdDate = 1704067200000\<rparr>],
           [(ListSecretVersionIdsCommand ''my/secret'' True None 100, None)],
           \<lparr>listPages = currentOnlyPages, failOnUpdate = f,
             calls = [ListSecretVersionIdsCommand ''my/secret'' True None 100], pageIndex = 1\<rparr>)"
  by (subst collectLabeled.simps) (simp add: mock_eval currentOnlyPages_def)

lemma collect_broken:
  "collectLabeled brokenSend ''my/secret'' None [] [] () =
     Some (Inl (ClientError ''AccessDeniedException'' ''not authorized''),
           [(ListSecretVersionIdsCommand ''my/secret'' True None 100,
             Some (ClientError ''AccessDeniedException'' ''not authorized''))], ())"
  by (subst collectLabeled.simps) (simp add: brokenSend_def)

lemma testOptions_simps:
  "secretId (testOptions thr dry) = ''my/secret''"
  "thresholdOf (testOptions thr dry) = thr"
  "excludeStagesOf (testOptions thr dry) = defaultExcludeStages"
  "dryRunOf (testOptions thr (Some d)) = d"
  "dryRunOf (testOptions thr None) = False"
  "(testOptions thr dry)\<lparr>dryRun := dry'\<rparr> = testOptions thr dry'"
  by (simp_all add: testOptions_def thresholdOf_def excludeStagesOf_def dryRunOf_def)

lemma col_over:
  "collectLabeled mockSend (secretId (testOptions thr dry)) None [] []
      (newMock overThresholdPages f) =
     Some (Inr [\<lparr>stage = ''stage-a'', versionId = ''v1'', createdDate = 1704067200000\<rparr>,
                \<lparr>stage = ''stage-b'', versionId = ''v2'', createdDate = 1704240000000\<rparr>,
                \<lparr>stage = ''AWSCURRENT'', versionId = ''v3'', createdDate = 1704153600000\<rparr>],
           [(ListSecretVersionIdsCommand ''my/secret'' True None 100, None)],
           \<lparr>listPages = overThresholdPages, failOnUpdate = f,
             calls = [ListSecretVersionIdsCommand ''my/secret'' True None 100], pageIndex = 1\<rparr>)"
  by (simp add: testOptions_simps collect_overThreshold)

lemma pick_over:
  "pickOldestStageToDeprecate
     (uniqueStagesOf (excludeStagesOf (testOptions 1 dry))
        [\<lparr>stage = ''stage-a'', versionId = ''v1'', createdDate = 1704067200000\<rparr>,
         \<lparr>stage = ''stage-b'', versionId = ''v2'', createdDate = 1704240000000\<rparr>,
         \<lparr>stage = ''AWSCURRENT'', versionId = ''v3'', createdDate = 1704153600000\<rparr>])
     (thresholdOf (testOptions 1 dry)) =
     Some \<lparr>stage = ''stage-a'', versionId = ''v1'', createdDate = 1704067200000\<rparr>"
  by (simp add: testOptions_simps unique_overThreshold pick_overThreshold)

lemma col_at:
  "collectLabeled mockSend (secretId (testOptions thr dry)) None [] []
      (newMock atThresholdPages f) =
     Some (Inr [\<lparr>stage = ''custom-1'', versionId = ''v1'', createdDate = 1704067200000\<rparr>,
                \<lparr>stage = ''AWSCURRENT'', versionId = ''v2'', createdDate = 1704153600000\<rparr>],
           [(ListSecretVersionIdsCommand ''my/secret'' True None 100, None)],
           \<lparr>listPages = atThresholdPages, failOnUpdate = f,
             calls = [ListSecretVersionIdsCommand ''my/secret'' True None 100], pageIndex = 1\<rparr>)"
  by (simp add: testOptions_simps collect_atThreshold)

lemma trim_over_ok:
  "trimStagesWithClient mockSend (newMock overThresholdPages False) (testOptions 1 None) =
     Some (Inr \<lparr>trimmed = True, removed = Some (''stage-a'', ''v1''), count = 3,
                manageableCount = 2\<rparr>,
           [(ListSecretVersionIdsCommand ''my/secret'' True None 100, None),
            (UpdateSecretVersionStageCommand ''my/secret'' ''stage-a'' ''v1'', None)],
           \<lparr>listPages = overThresholdPages, failOnUpdate = False,
             calls = [ListSecretVersionIdsCommand ''my/secret'' True None 100,
                      UpdateSecretVersionStageCommand ''my/secret'' ''stage-a'' ''v1''],
             pageIndex = 1\<rparr>)"
  by (simp add: trimStagesWithClient_def collect_overThreshold decide_def unique_overThreshold
        pick_overThreshold testOptions_simps Let_def)

lemma parse_default:
  "parseExcludeStages ''AWSCURRENT,AWSPREVIOUS,AWSPENDING'' = defaultExcludeStages"
  by (simp add: parseExcludeStages_def trim_def isSpace_def defaultExcludeStages_def)

lemma parse_empty: "parseExcludeStages [] = {}"
  by (simp add: parseExcludeStages_def trim_def)

lemma excludeStagesOf_default:
  "excludeStagesOf \<lparr>secretId = sid, threshold = thr, excludeStages = None, dryRun = dry\<rparr> =
     {''AWSCURRENT'', ''AWSPREVIOUS'', ''AWSPENDING''}"
  by (simp add: excludeStagesOf_def defaultExcludeStages_def)

lemma runExcludeStages_default:
  "excludeStagesInput inp = [] \<Longrightarrow>
   runExcludeStages inp = {''AWSCURRENT'', ''AWSPREVIOUS'', ''AWSPENDING''}"
  using parse_default by (simp add: runExcludeStages_def orElse_def defaultExcludeStages_def)

lemma indexExcludeStages_default: "excludeStagesInput inp = [] \<Longrightarrow> indexExcludeStages inp = {}"
  by (simp add: indexExcludeStages_def orElse_def parse_empty)

lemma run_noInputs:
  "run mockSend (newMock currentOnlyPages False) noInputs =
     Some (Trimmed False, [(ListSecretVersionIdsCommand ''my/secret'' True None 100, None)],
           \<lparr>listPages = currentOnlyPages, failOnUpdate = False,
             calls = [ListSecretVersionIdsCommand ''my/secret'' True None 100], pageIndex = 1\<rparr>)"
  using runExcludeStages_default [of noInputs]
  by (simp add: run_def trimStagesWithClient_def noInputs_def collect_currentOnly decide_def
        pure_eval)

lemma indexExcludeStages_listed: "indexExcludeStages listedInputs = defaultExcludeStages"
  by (simp add: indexExcludeStages_def listedInputs_def orElse_def parseExcludeStages_def trim_def
        isSpace_def defaultExcludeStages_def)

lemma indexRun_listed:
  "indexRun mockSend (newMock overThresholdPages False) listedInputs =
     Some (Trimmed True,
           [(ListSecretVersionIdsCommand ''my/secret'' True None 100, None),
            (UpdateSecretVersionStageCommand ''my/secret'' ''stage-a'' ''v1'', None)],
           \<lparr>listPages = overThresholdPages, failOnUpdate = False,
             calls = [ListSecretVersionIdsCommand ''my/secret'' True None 100,
                      UpdateSecretVersionStageCommand ''my/secret'' ''stage-a'' ''v1''],
             pageIndex = 1\<rparr>)"
proof -
  have "secretIdInput listedInputs = ''my/secret''" "thresholdInput listedInputs = 1"
    "\<not> dryRunInput listedInputs"
    by (simp_all add: listedInputs_def)
  then show ?thesis
    by (simp add: indexRun_def Let_def collect_overThreshold indexExcludeStages_listed
          indexUniqueStages_eq unique_overThreshold toSorted_def byCreatedDate_def)
qed

lemma serves_paginated:
  "servesPages mockSend ''my/secret'' (newMock paginatedPages False) None paginatedPages"
  by (simp add: newMock_def mockPage_def paginatedPages_def)

section \<open>The claims\<close>

subsection \<open>C1\<close>

text \<open>
  C1, as amended. Take a run of \<^verbatim>\<open>trimStagesWithClient\<close> whose listing ends without an error,
  in which a candidate is selected and dry-run is false. Then the manageable count exceeds the
  threshold, no listing call is an update, and the run issues exactly one update command after
  the listing calls, with the secret id, the candidate's stage and the candidate's version id.
  When that call resolves, the run returns \<^verbatim>\<open>trimmed = true\<close> with \<^verbatim>\<open>removed\<close> the same
  stage and version id. When it rejects, the run rejects with that error and returns no result.
\<close>

theorem trim_removes_candidate:
  assumes "collectLabeled send (secretId opts) None [] [] c = Some (Inr labeled, listLog, c1)"
    and "pickOldestStageToDeprecate (uniqueStagesOf (excludeStagesOf opts) labeled) (thresholdOf opts)
           = Some candidate"
    and "\<not> dryRunOf opts"
  shows "thresholdOf opts < int (length (uniqueStagesOf (excludeStagesOf opts) labeled)) \<and>
    (\<forall>x\<in>set listLog. \<not> isUpdate (fst x)) \<and>
    (\<forall>resp c2.
       send c1 (UpdateSecretVersionStageCommand (secretId opts) (stage candidate) (versionId candidate))
         = (Inr resp, c2) \<longrightarrow>
       trimStagesWithClient send c opts =
         Some (Inr \<lparr>trimmed = True, removed = Some (stage candidate, versionId candidate),
                    count = length labeled,
                    manageableCount = length (uniqueStagesOf (excludeStagesOf opts) labeled)\<rparr>,
               listLog @ [(UpdateSecretVersionStageCommand (secretId opts) (stage candidate)
                             (versionId candidate), None)], c2)) \<and>
    (\<forall>e c2.
       send c1 (UpdateSecretVersionStageCommand (secretId opts) (stage candidate) (versionId candidate))
         = (Inl e, c2) \<longrightarrow>
       trimStagesWithClient send c opts =
         Some (Inl e, listLog @ [(UpdateSecretVersionStageCommand (secretId opts) (stage candidate)
                             (versionId candidate), Some e)], c2))"
  using assms(2,3) pick_Some_over [OF assms(2)] collect_lists_only [OF assms(1)]
  by (simp add: trim_collected [OF assms(1)] decide_def)

text \<open>
  Both outcomes of the update on the test's pages (two manageable stages, threshold 1): the
  double that accepts the update and the one that fails it.
\<close>

theorem trim_removes_candidate_witness:
  "trimStagesWithClient mockSend (newMock overThresholdPages False) (testOptions 1 None) =
     Some (Inr \<lparr>trimmed = True, removed = Some (''stage-a'', ''v1''), count = 3,
                manageableCount = 2\<rparr>,
           [(ListSecretVersionIdsCommand ''my/secret'' True None 100, None),
            (UpdateSecretVersionStageCommand ''my/secret'' ''stage-a'' ''v1'', None)],
           \<lparr>listPages = overThresholdPages, failOnUpdate = False,
             calls = [ListSecretVersionIdsCommand ''my/secret'' True None 100,
                      UpdateSecretVersionStageCommand ''my/secret'' ''stage-a'' ''v1''],
             pageIndex = 1\<rparr>) \<and>
   trimStagesWithClient mockSend (newMock overThresholdPages True) (testOptions 1 None) =
     Some (Inl (ClientError ''MockUpdateError'' ''Update failed (simulated)''),
           [(ListSecretVersionIdsCommand ''my/secret'' True None 100, None),
            (UpdateSecretVersionStageCommand ''my/secret'' ''stage-a'' ''v1'',
             Some (ClientError ''MockUpdateError'' ''Update failed (simulated)''))],
           \<lparr>listPages = overThresholdPages, failOnUpdate = True,
             calls = [ListSecretVersionIdsCommand ''my/secret'' True None 100,
                      UpdateSecretVersionStageCommand ''my/secret'' ''stage-a'' ''v1''],
             pageIndex = 1\<rparr>)"
proof -
  have col: "\<And>f. collectLabeled mockSend (secretId (testOptions 1 None)) None [] []
      (newMock overThresholdPages f) =
     Some (Inr [\<lparr>stage = ''stage-a'', versionId = ''v1'', createdDate = 1704067200000\<rparr>,
                \<lparr>stage = ''stage-b'', versionId = ''v2'', createdDate = 1704240000000\<rparr>,
                \<lparr>stage = ''AWSCURRENT'', versionId = ''v3'', createdDate = 1704153600000\<rparr>],
           [(ListSecretVersionIdsCommand ''my/secret'' True None 100, None)],
           \<lparr>listPages = overThresholdPages, failOnUpdate = f,
             calls = [ListSecretVersionIdsCommand ''my/secret'' True None 100], pageIndex = 1\<rparr>)"
    by (simp add: testOptions_simps collect_overThreshold)
  have pick: "pickOldestStageToDeprecate
     (uniqueStagesOf (excludeStagesOf (testOptions 1 None))
        [\<lparr>stage = ''stage-a'', versionId = ''v1'', createdDate = 1704067200000\<rparr>,
         \<lparr>stage = ''stage-b'', versionId = ''v2'', createdDate = 1704240000000\<rparr>,
         \<lparr>stage = ''AWSCURRENT'', versionId = ''v3'', createdDate = 1704153600000\<rparr>])
     (thresholdOf (testOptions 1 None)) =
     Some \<lparr>stage = ''stage-a'', versionId = ''v1'', createdDate = 1704067200000\<rparr>"
    by (simp add: testOptions_simps unique_overThreshold pick_overThreshold)
  have wet: "\<not> dryRunOf (testOptions 1 None)"
    by (simp add: testOptions_simps)
  show ?thesis
    using trim_removes_candidate [OF col [of False] pick wet]
      trim_removes_candidate [OF col [of True] pick wet]
    by (simp add: testOptions_simps unique_overThreshold)
qed

text \<open>
  C1 as stated fails when the update is rejected: a candidate is selected, dry-run is false, one
  update command is issued, and the run rejects instead of returning \<^verbatim>\<open>trimmed = true\<close>.
\<close>

theorem failed_update_returns_no_result:
  "pickOldestStageToDeprecate
     (uniqueStagesOf (excludeStagesOf (testOptions 1 (Some False)))
        [\<lparr>stage = ''stage-a'', versionId = ''v1'', createdDate = 1704067200000\<rparr>,
         \<lparr>stage = ''stage-b'', versionId = ''v2'', createdDate = 1704240000000\<rparr>,
         \<lparr>stage = ''AWSCURRENT'', versionId = ''v3'', createdDate = 1704153600000\<rparr>])
     (thresholdOf (testOptions 1 (Some False))) =
     Some \<lparr>stage = ''stage-a'', versionId = ''v1'', createdDate = 1704067200000\<rparr> \<and>
   \<not> dryRunOf (testOptions 1 (Some False)) \<and>
   trimStagesWithClient mockSend (newMock overThresholdPages True) (testOptions 1 (Some False)) =
     Some (Inl (ClientError ''MockUpdateError'' ''Update failed (simulated)''),
           [(ListSecretVersionIdsCommand ''my/secret'' True None 100, None),
            (UpdateSecretVersionStageCommand ''my/secret'' ''stage-a'' ''v1'',
             Some (ClientError ''MockUpdateError'' ''Update failed (simulated)''))],
           \<lparr>listPages = overThresholdPages, failOnUpdate = True,
             calls = [ListSecretVersionIdsCommand ''my/secret'' True None 100,
                      UpdateSecretVersionStageCommand ''my/secret'' ''stage-a'' ''v1''],
             pageIndex = 1\<rparr>)"
  by (simp add: testOptions_simps unique_overThreshold pick_overThreshold trimStagesWithClient_def
        collect_overThreshold decide_def Let_def)

subsection \<open>C2\<close>

text \<open>
  C2. For a non-negative threshold, \<^verbatim>\<open>pickOldestStageToDeprecate\<close> returns no candidate when
  the list is no longer than the threshold. Otherwise it returns a record of the list such that
  every record before it has a strictly later \<^verbatim>\<open>createdDate\<close> and every record after it has
  one at least as late: the minimum, and among equal minima the earliest in input order.
\<close>

theorem pick_oldest_first:
  assumes "0 \<le> thr"
  shows "(int (length stages) \<le> thr \<longrightarrow> pickOldestStageToDeprecate stages thr = None) \<and>
         (thr < int (length stages) \<longrightarrow>
            (\<exists>before oldest after. stages = before @ oldest # after \<and>
               pickOldestStageToDeprecate stages thr = Some oldest \<and>
               (\<forall>b\<in>set before. createdDate oldest < createdDate b) \<and>
               (\<forall>a\<in>set after. createdDate oldest \<le> createdDate a)))"
proof (intro conjI impI)
  assume "int (length stages) \<le> thr"
  then show "pickOldestStageToDeprecate stages thr = None"
    by (simp add: pickOldestStageToDeprecate_def)
next
  assume over: "thr < int (length stages)"
  with assms have "stages \<noteq> []" by auto
  from toSorted_head [OF this] obtain before oldest after rest where
    "stages = before @ oldest # after" "toSorted byCreatedDate stages = oldest # rest"
    "\<forall>b\<in>set before. createdDate oldest < createdDate b"
    "\<forall>a\<in>set after. createdDate oldest \<le> createdDate a"
    by blast
  moreover from this(2) over have "pickOldestStageToDeprecate stages thr = Some oldest"
    by (simp add: pickOldestStageToDeprecate_def)
  ultimately show "\<exists>before oldest after. stages = before @ oldest # after \<and>
               pickOldestStageToDeprecate stages thr = Some oldest \<and>
               (\<forall>b\<in>set before. createdDate oldest < createdDate b) \<and>
               (\<forall>a\<in>set after. createdDate oldest \<le> createdDate a)"
    by blast
qed

text \<open>
  Three records over a threshold of 2, the two oldest tied: the first of the tied ones is picked.
  Two records at a threshold of 2: no candidate.
\<close>

theorem pick_oldest_first_witness:
  "(0::int) \<le> 2 \<and>
   pickOldestStageToDeprecate
     [\<lparr>stage = ''a'', versionId = ''v1'', createdDate = 5\<rparr>,
      \<lparr>stage = ''b'', versionId = ''v2'', createdDate = 3\<rparr>,
      \<lparr>stage = ''c'', versionId = ''v3'', createdDate = 3\<rparr>] 2 =
     Some \<lparr>stage = ''b'', versionId = ''v2'', createdDate = 3\<rparr> \<and>
   pickOldestStageToDeprecate
     [\<lparr>stage = ''a'', versionId = ''v1'', createdDate = 5\<rparr>,
      \<lparr>stage = ''b'', versionId = ''v2'', createdDate = 3\<rparr>] 2 = None"
proof -
  have h: "(0::int) \<le> 2" by simp
  show ?thesis
    using h
      pick_oldest_first [OF h, of "[\<lparr>stage = ''a'', versionId = ''v1'', createdDate = 5\<rparr>,
        \<lparr>stage = ''b'', versionId = ''v2'', createdDate = 3\<rparr>,
        \<lparr>stage = ''c'', versionId = ''v3'', createdDate = 3\<rparr>]"]
      pick_oldest_first [OF h, of "[\<lparr>stage = ''a'', versionId = ''v1'', createdDate = 5\<rparr>,
        \<lparr>stage = ''b'', versionId = ''v2'', createdDate = 3\<rparr>]"]
    by (simp add: pickOldestStageToDeprecate_def toSorted_def byCreatedDate_def)
qed

subsection \<open>C3\<close>

text \<open>
  C3. No record with an excluded stage is in the unique stages, neither those of
  \<^verbatim>\<open>trimStagesWithClient\<close> nor those of \<^verbatim>\<open>run\<close> in \<^verbatim>\<open>src/index.js\<close>, whatever the
  creation dates; the selector never picks one; and no update command that either entry point
  sends, and no \<^verbatim>\<open>removed\<close> pair that is returned, names an excluded stage.
\<close>

theorem excluded_never_selected:
  "(\<forall>r\<in>set (uniqueStagesOf ex labeled). stage r \<notin> ex) \<and>
   (\<forall>r\<in>set (indexUniqueStages ex labeled). stage r \<notin> ex) \<and>
   (\<forall>thr candidate.
      pickOldestStageToDeprecate (uniqueStagesOf ex labeled) thr = Some candidate \<longrightarrow>
      stage candidate \<notin> ex) \<and>
   (\<forall>res log c'. trimStagesWithClient send c opts = Some (res, log, c') \<longrightarrow>
      (\<forall>sid s v outcome. (UpdateSecretVersionStageCommand sid s v, outcome) \<in> set log \<longrightarrow>
         s \<notin> excludeStagesOf opts) \<and>
      (\<forall>r s v. res = Inr r \<and> removed r = Some (s, v) \<longrightarrow> s \<notin> excludeStagesOf opts)) \<and>
   (\<forall>out log c'. indexRun send c inp = Some (out, log, c') \<longrightarrow>
      (\<forall>sid s v outcome. (UpdateSecretVersionStageCommand sid s v, outcome) \<in> set log \<longrightarrow>
         s \<notin> indexExcludeStages inp))"
proof (intro conjI allI impI ballI)
  fix r assume "r \<in> set (uniqueStagesOf ex labeled)"
  then show "stage r \<notin> ex" by (rule uniqueStagesOf_not_excluded)
next
  fix r assume "r \<in> set (indexUniqueStages ex labeled)"
  then show "stage r \<notin> ex" by (simp add: indexUniqueStages_eq uniqueStagesOf_not_excluded)
next
  fix thr candidate
  assume "pickOldestStageToDeprecate (uniqueStagesOf ex labeled) thr = Some candidate"
  then show "stage candidate \<notin> ex" by (rule pick_not_excluded)
next
  fix res log c' sid s v outcome
  assume run: "trimStagesWithClient send c opts = Some (res, log, c')"
    and mem: "(UpdateSecretVersionStageCommand sid s v, outcome) \<in> set log"
  from run show "s \<notin> excludeStagesOf opts"
  proof (cases rule: trim_cases)
    case (failed e)
    from collect_lists_only [OF failed(1)] mem show ?thesis by force
  next
    case (collected labeled listLog c1)
    from decide_update [OF collected(2) collect_lists_only [OF collected(1)] mem]
    show ?thesis using pick_not_excluded by blast
  qed
next
  fix res log c' r s v
  assume run: "trimStagesWithClient send c opts = Some (res, log, c')"
    and res: "res = Inr r \<and> removed r = Some (s, v)"
  from run show "s \<notin> excludeStagesOf opts"
  proof (cases rule: trim_cases)
    case (failed e)
    with res show ?thesis by simp
  next
    case (collected labeled listLog c1)
    with res have "decide send opts labeled listLog c1 = (Inr r, log, c')" by simp
    from decide_removed [OF this] res show ?thesis using pick_not_excluded by blast
  qed
next
  fix out log c' sid s v outcome
  assume run: "indexRun send c inp = Some (out, log, c')"
    and mem: "(UpdateSecretVersionStageCommand sid s v, outcome) \<in> set log"
  from run show "s \<notin> indexExcludeStages inp"
  proof (cases rule: indexRun_cases)
    case (failed e)
    from collect_lists_only [OF failed] mem show ?thesis by force
  next
    case (quiet labeled c1)
    from collect_lists_only [OF quiet] mem show ?thesis by force
  next
    case (updated labeled listLog c1 oldest rest outcome')
    from collect_lists_only [OF updated(1)] mem updated(3) have s: "s = stage oldest" by force
    have "oldest \<in> set (toSorted byCreatedDate (indexUniqueStages (indexExcludeStages inp) labeled))"
      using updated(2) by simp
    then have "oldest \<in> set (uniqueStagesOf (indexExcludeStages inp) labeled)"
      by (simp add: set_toSorted indexUniqueStages_eq)
    with s show ?thesis by (simp add: uniqueStagesOf_not_excluded)
  qed
qed

text \<open>
  The test with \<^verbatim>\<open>AWSCURRENT\<close> among two custom stages: only the custom stages are kept,
  and the stage that both entry points remove is not excluded.
\<close>

theorem excluded_never_selected_witness:
  "uniqueStagesOf defaultExcludeStages
     [\<lparr>stage = ''stage-a'', versionId = ''v1'', createdDate = 1704067200000\<rparr>,
      \<lparr>stage = ''stage-b'', versionId = ''v2'', createdDate = 1704240000000\<rparr>,
      \<lparr>stage = ''AWSCURRENT'', versionId = ''v3'', createdDate = 1704153600000\<rparr>] =
     [\<lparr>stage = ''stage-a'', versionId = ''v1'', createdDate = 1704067200000\<rparr>,
      \<lparr>stage = ''stage-b'', versionId = ''v2'', createdDate = 1704240000000\<rparr>] \<and>
   ''AWSCURRENT'' \<in> defaultExcludeStages \<and>
   ''stage-a'' \<notin> defaultExcludeStages \<and> ''stage-b'' \<notin> defaultExcludeStages \<and>
   ''stage-a'' \<notin> excludeStagesOf (testOptions 1 None) \<and>
   ''stage-a'' \<notin> indexExcludeStages listedInputs"
proof -
  note all = excluded_never_selected
    [of defaultExcludeStages
        "[\<lparr>stage = ''stage-a'', versionId = ''v1'', createdDate = 1704067200000\<rparr>,
          \<lparr>stage = ''stage-b'', versionId = ''v2'', createdDate = 1704240000000\<rparr>,
          \<lparr>stage = ''AWSCURRENT'', versionId = ''v3'', createdDate = 1704153600000\<rparr>]"
        mockSend "newMock overThresholdPages False" "testOptions 1 None" listedInputs]
  note unique = all [THEN conjunct1, rule_format]
  note index = all [THEN conjunct2, THEN conjunct1, rule_format]
  note picked = all [THEN conjunct2, THEN conjunct2, THEN conjunct1, rule_format,
    of 1 "\<lparr>stage = ''stage-a'', versionId = ''v1'', createdDate = 1704067200000\<rparr>"]
  note viaTrim = all [THEN conjunct2, THEN conjunct2, THEN conjunct2, THEN conjunct1, rule_format,
    OF trim_over_ok]
  note indexed = all [THEN conjunct2, THEN conjunct2, THEN conjunct2, THEN conjunct2, rule_format,
    OF indexRun_listed, of "''my/secret''" "''stage-a''" "''v1''" None]
  have a: "''stage-a'' \<notin> defaultExcludeStages"
    using unique [of "\<lparr>stage = ''stage-a'', versionId = ''v1'', createdDate = 1704067200000\<rparr>"]
      picked
    by (simp add: unique_overThreshold pick_overThreshold)
  have b: "''stage-b'' \<notin> defaultExcludeStages"
    using index [of "\<lparr>stage = ''stage-b'', versionId = ''v2'', createdDate = 1704240000000\<rparr>"]
    by (simp add: indexUniqueStages_eq unique_overThreshold)
  have c: "''stage-a'' \<notin> excludeStagesOf (testOptions 1 None)"
    using viaTrim [THEN conjunct1, rule_format, of "''my/secret''" "''stage-a''" "''v1''" None]
      viaTrim [THEN conjunct2, rule_format, of _ "''stage-a''" "''v1''"]
    by simp
  have d: "''stage-a'' \<notin> indexExcludeStages listedInputs"
    using indexed by simp
  show ?thesis using a b c d
    by (simp add: unique_overThreshold) (simp add: defaultExcludeStages_def)
qed

subsection \<open>C4\<close>

text \<open>
  C4, as amended. For a stage that is not excluded and occurs among the collected records, the
  index holds exactly one record of that stage. That record has the latest \<^verbatim>\<open>createdDate\<close>
  of the stage's records, and when several share the latest date it is the first of them in scan
  order: every earlier record of the stage is strictly older, every later one is no newer. The
  same holds for the unique stages of \<^verbatim>\<open>run\<close> in \<^verbatim>\<open>src/index.js\<close>.
\<close>

theorem dedup_keeps_first_latest:
  assumes "s \<notin> ex" and "s \<in> stage ` set labeled"
  shows "\<exists>before r after. labeled = before @ r # after \<and> stage r = s \<and>
      mapGet (latestByStage ex labeled) s = Some r \<and>
      filter (\<lambda>x. stage x = s) (uniqueStagesOf ex labeled) = [r] \<and>
      filter (\<lambda>x. stage x = s) (indexUniqueStages ex labeled) = [r] \<and>
      (\<forall>b\<in>set before. stage b = s \<longrightarrow> createdDate b < createdDate r) \<and>
      (\<forall>a\<in>set after. stage a = s \<longrightarrow> createdDate a \<le> createdDate r)"
proof -
  from latestByStage_inv [of ex labeled] assms obtain r where
    r: "mapGet (latestByStage ex labeled) s = Some r" and fl: "firstLatest labeled s r"
    by blast
  from keyed_filter [OF keyed_latestByStage r]
  have u: "filter (\<lambda>x. stage x = s) (uniqueStagesOf ex labeled) = [r]"
    by (simp add: uniqueStagesOf_def)
  from fl obtain before after where
    "labeled = before @ r # after" "stage r = s"
    "\<forall>b\<in>set before. stage b = s \<longrightarrow> createdDate b < createdDate r"
    "\<forall>a\<in>set after. stage a = s \<longrightarrow> createdDate a \<le> createdDate r"
    unfolding firstLatest_def by blast
  with r u show ?thesis by (simp add: indexUniqueStages_eq) blast
qed

text \<open>
  A stage on three versions, the two newest of equal date, with another stage in between.
\<close>

theorem dedup_keeps_first_latest_witness:
  "''s'' \<notin> ({} :: string set) \<and>
   ''s'' \<in> stage ` set [\<lparr>stage = ''s'', versionId = ''v1'', createdDate = 5\<rparr>,
                         \<lparr>stage = ''t'', versionId = ''v0'', createdDate = 9\<rparr>,
                         \<lparr>stage = ''s'', versionId = ''v2'', createdDate = 7\<rparr>,
                         \<lparr>stage = ''s'', versionId = ''v3'', createdDate = 7\<rparr>] \<and>
   filter (\<lambda>x. stage x = ''s'')
     (uniqueStagesOf {} [\<lparr>stage = ''s'', versionId = ''v1'', createdDate = 5\<rparr>,
                         \<lparr>stage = ''t'', versionId = ''v0'', createdDate = 9\<rparr>,
                         \<lparr>stage = ''s'', versionId = ''v2'', createdDate = 7\<rparr>,
                         \<lparr>stage = ''s'', versionId = ''v3'', createdDate = 7\<rparr>]) =
     [\<lparr>stage = ''s'', versionId = ''v2'', createdDate = 7\<rparr>]"
proof -
  have ex: "''s'' \<notin> ({} :: string set)" by simp
  have mem: "''s'' \<in> stage ` set [\<lparr>stage = ''s'', versionId = ''v1'', createdDate = 5\<rparr>,
                         \<lparr>stage = ''t'', versionId = ''v0'', createdDate = 9\<rparr>,
                         \<lparr>stage = ''s'', versionId = ''v2'', createdDate = 7\<rparr>,
                         \<lparr>stage = ''s'', versionId = ''v3'', createdDate = 7\<rparr>]"
    by simp
  show ?thesis
    using ex mem dedup_keeps_first_latest [OF ex mem]
    by (simp add: uniqueStagesOf_def latestByStage_def latestStep_def keepLatest_def mapGet_def)
qed

text \<open>
  C4 as stated fails on equal dates: of two records of one stage with the same
  \<^verbatim>\<open>createdDate\<close> the first seen is kept, not the last.
\<close>

theorem equal_dates_keep_first_seen:
  "mapGet (latestByStage {}
     [\<lparr>stage = ''s'', versionId = ''v1'', createdDate = 5\<rparr>,
      \<lparr>stage = ''s'', versionId = ''v2'', createdDate = 5\<rparr>]) ''s'' =
     Some \<lparr>stage = ''s'', versionId = ''v1'', createdDate = 5\<rparr> \<and>
   uniqueStagesOf {}
     [\<lparr>stage = ''s'', versionId = ''v1'', createdDate = 5\<rparr>,
      \<lparr>stage = ''s'', versionId = ''v2'', createdDate = 5\<rparr>] =
     [\<lparr>stage = ''s'', versionId = ''v1'', createdDate = 5\<rparr>] \<and>
   indexUniqueStages {}
     [\<lparr>stage = ''s'', versionId = ''v1'', createdDate = 5\<rparr>,
      \<lparr>stage = ''s'', versionId = ''v2'', createdDate = 5\<rparr>] =
     [\<lparr>stage = ''s'', versionId = ''v1'', createdDate = 5\<rparr>]"
  by (simp add: indexUniqueStages_def uniqueStagesOf_def latestByStage_def latestStep_def
        keepLatest_def mapGet_def)

subsection \<open>C5\<close>

text \<open>
  C5. When the service answers the token-chained listing calls with \<open>N\<close> pages of which all
  but the last carry a non-empty token, the collector ends after exactly \<open>N\<close> listing calls:
  the first without a token, each later one with the token of the page before, none of them
  failing. It returns the labels of all pages in order. \<^verbatim>\<open>trimStagesWithClient\<close> then
  decides on that complete list: the first \<open>N\<close> calls of its log are the listing calls and
  whatever follows is an update. The log of \<^verbatim>\<open>run\<close> in \<^verbatim>\<open>src/index.js\<close> has the same shape.
\<close>

theorem collector_reads_every_page:
  assumes "servesPages send sid c None pages" and "pages \<noteq> []"
    and "\<forall>p\<in>set (butlast pages). truthy (NextToken p)"
    and "\<not> truthy (NextToken (last pages))"
  shows "\<exists>listLog c1.
     collectLabeled send sid None [] [] c =
       Some (Inr (concat (map labelsOfResponse pages)), listLog, c1) \<and>
     length listLog = length pages \<and>
     listLog = map (\<lambda>tok. (ListSecretVersionIdsCommand sid True tok 100, None))
                 (None # map NextToken (butlast pages)) \<and>
     (\<forall>opts. secretId opts = sid \<longrightarrow>
        trimStagesWithClient send c opts =
          Some (decide send opts (concat (map labelsOfResponse pages)) listLog c1)) \<and>
     (\<forall>opts res log c'. decide send opts (concat (map labelsOfResponse pages)) listLog c1
          = (res, log, c') \<longrightarrow>
        take (length pages) log = listLog \<and>
        (\<forall>x\<in>set (drop (length pages) log). isUpdate (fst x))) \<and>
     (\<forall>inp out log c'. secretIdInput inp = sid \<and> indexRun send c inp = Some (out, log, c') \<longrightarrow>
        take (length pages) log = listLog \<and>
        (\<forall>x\<in>set (drop (length pages) log). isUpdate (fst x)))"
proof -
  from collect_pages [OF assms, of "[]" "[]"] obtain c1 where
    col: "collectLabeled send sid None [] [] c =
       Some (Inr (concat (map labelsOfResponse pages)),
             map (\<lambda>tok. (ListSecretVersionIdsCommand sid True tok 100, None))
                 (None # map NextToken (butlast pages)), c1)"
    by auto
  let ?log = "map (\<lambda>tok. (ListSecretVersionIdsCommand sid True tok 100, None))
                 (None # map NextToken (butlast pages))"
  have len: "length ?log = length pages" using assms(2) by simp
  have trim: "\<forall>opts. secretId opts = sid \<longrightarrow>
        trimStagesWithClient send c opts =
          Some (decide send opts (concat (map labelsOfResponse pages)) ?log c1)"
    using col by (auto simp: trimStagesWithClient_def)
  have dec: "\<forall>opts res log c'. decide send opts (concat (map labelsOfResponse pages)) ?log c1
          = (res, log, c') \<longrightarrow>
        take (length pages) log = ?log \<and>
        (\<forall>x\<in>set (drop (length pages) log). isUpdate (fst x))"
  proof (intro allI impI)
    fix opts res log c'
    assume "decide send opts (concat (map labelsOfResponse pages)) ?log c1 = (res, log, c')"
    from decide_cases [OF this] len
    show "take (length pages) log = ?log \<and>
        (\<forall>x\<in>set (drop (length pages) log). isUpdate (fst x))"
      by (elim disjE exE conjE) (simp_all del: map_map list.map)
  qed
  have idx: "\<forall>inp out log c'. secretIdInput inp = sid \<and> indexRun send c inp = Some (out, log, c') \<longrightarrow>
        take (length pages) log = ?log \<and>
        (\<forall>x\<in>set (drop (length pages) log). isUpdate (fst x))"
  proof (intro allI impI)
    fix inp out log c'
    assume a: "secretIdInput inp = sid \<and> indexRun send c inp = Some (out, log, c')"
    then have "indexRun send c inp = Some (out, log, c')" by simp
    then show "take (length pages) log = ?log \<and>
        (\<forall>x\<in>set (drop (length pages) log). isUpdate (fst x))"
    proof (cases rule: indexRun_cases)
      case (failed e)
      with a col show ?thesis by simp
    next
      case (quiet labeled c2)
      with a col have "log = ?log @ []" by simp
      with prefix_split [OF len, of "[]"] show ?thesis by simp
    next
      case (updated labeled listLog c2 oldest rest outcome)
      with a col have "log = ?log @ [(UpdateSecretVersionStageCommand (secretIdInput inp)
          (stage oldest) (versionId oldest), outcome)]" by simp
      with prefix_split [OF len, of "[(UpdateSecretVersionStageCommand (secretIdInput inp)
          (stage oldest) (versionId oldest), outcome)]"] show ?thesis by simp
    qed
  qed
  from col len trim dec idx show ?thesis by blast
qed

text \<open>
  The two pages of the pagination test, served by the test double.
\<close>

theorem collector_reads_every_page_witness:
  "collectLabeled mockSend ''my/secret'' None [] [] (newMock paginatedPages False) =
     Some (Inr [\<lparr>stage = ''s1'', versionId = ''v1'', createdDate = 1704067200000\<rparr>,
                \<lparr>stage = ''s2'', versionId = ''v2'', createdDate = 1704153600000\<rparr>,
                \<lparr>stage = ''s3'', versionId = ''v3'', createdDate = 1704240000000\<rparr>,
                \<lparr>stage = ''AWSCURRENT'', versionId = ''v4'', createdDate = 1704326400000\<rparr>],
           [(ListSecretVersionIdsCommand ''my/secret'' True None 100, None),
            (ListSecretVersionIdsCommand ''my/secret'' True (Some ''next-1'') 100, None)],
           \<lparr>listPages = paginatedPages, failOnUpdate = False,
             calls = [ListSecretVersionIdsCommand ''my/secret'' True None 100,
                      ListSecretVersionIdsCommand ''my/secret'' True (Some ''next-1'') 100],
             pageIndex = 2\<rparr>) \<and>
   length paginatedPages = 2"
proof -
  have ne: "paginatedPages \<noteq> []" by (simp add: paginatedPages_def)
  have more: "\<forall>p\<in>set (butlast paginatedPages). truthy (NextToken p)"
    by (simp add: paginatedPages_def)
  have stop: "\<not> truthy (NextToken (last paginatedPages))"
    by (simp add: paginatedPages_def)
  show ?thesis
    using collector_reads_every_page [OF serves_paginated ne more stop]
    by (simp add: collect_paginated)
qed

subsection \<open>C6\<close>

text \<open>
  C6. In a dry run in which a candidate is selected, \<^verbatim>\<open>trimStagesWithClient\<close> returns
  \<^verbatim>\<open>trimmed = false\<close> with \<^verbatim>\<open>removed\<close> the candidate's stage and version id, and its log
  holds the listing calls only: no update command is sent.
\<close>

theorem dry_run_reports_only:
  assumes "collectLabeled send (secretId opts) None [] [] c = Some (Inr labeled, listLog, c1)"
    and "pickOldestStageToDeprecate (uniqueStagesOf (excludeStagesOf opts) labeled) (thresholdOf opts)
           = Some candidate"
    and "dryRunOf opts"
  shows "trimStagesWithClient send c opts =
           Some (Inr \<lparr>trimmed = False, removed = Some (stage candidate, versionId candidate),
                      count = length labeled,
                      manageableCount = length (uniqueStagesOf (excludeStagesOf opts) labeled)\<rparr>,
                 listLog, c1) \<and>
         (\<forall>x\<in>set listLog. \<not> isUpdate (fst x))"
  using assms(2,3) collect_lists_only [OF assms(1)]
  by (simp add: trim_collected [OF assms(1)] decide_def)

text \<open>
  The dry-run test: two manageable stages, threshold 1.
\<close>

theorem dry_run_reports_only_witness:
  "trimStagesWithClient mockSend (newMock overThresholdPages False) (testOptions 1 (Some True)) =
     Some (Inr \<lparr>trimmed = False, removed = Some (''stage-a'', ''v1''), count = 3,
                manageableCount = 2\<rparr>,
           [(ListSecretVersionIdsCommand ''my/secret'' True None 100, None)],
           \<lparr>listPages = overThresholdPages, failOnUpdate = False,
             calls = [ListSecretVersionIdsCommand ''my/secret'' True None 100], pageIndex = 1\<rparr>)"
proof -
  have dry: "dryRunOf (testOptions 1 (Some True))" by (simp add: testOptions_simps)
  show ?thesis
    using dry_run_reports_only [OF col_over pick_over dry]
    by (simp add: testOptions_simps unique_overThreshold)
qed

subsection \<open>C7\<close>

text \<open>
  C7. Whenever the service rejects a listing call, the first one or one that follows any number
  of pages with tokens, the run settles: it rejects with exactly that error, its log holds the
  listing calls up to the rejected one and no update command. Whenever the listing completes, a
  candidate is selected, dry-run is false and the update call is rejected, the run settles and
  rejects with exactly that error, the update being its last call. And in every settled run a
  call that threw is the last call of the run and its error is the run's; a run that returns
  \<^verbatim>\<open>trimmed = true\<close> has no failed call at all.
\<close>

theorem errors_propagate:
  "(\<forall>pages e cF. failsAfter send (secretId opts) c None pages e cF \<longrightarrow>
      (\<exists>log. trimStagesWithClient send c opts = Some (Inl e, log, cF) \<and>
         log = map (\<lambda>t. (ListSecretVersionIdsCommand (secretId opts) True t 100, None))
                   (butlast (None # map NextToken pages)) @
               [(ListSecretVersionIdsCommand (secretId opts) True
                   (last (None # map NextToken pages)) 100, Some e)] \<and>
         length log = Suc (length pages) \<and> (\<forall>x\<in>set log. \<not> isUpdate (fst x)))) \<and>
   (\<forall>labeled listLog c1 candidate e c2.
      collectLabeled send (secretId opts) None [] [] c = Some (Inr labeled, listLog, c1) \<and>
      pickOldestStageToDeprecate (uniqueStagesOf (excludeStagesOf opts) labeled) (thresholdOf opts)
        = Some candidate \<and>
      \<not> dryRunOf opts \<and>
      send c1 (UpdateSecretVersionStageCommand (secretId opts) (stage candidate)
              (versionId candidate)) = (Inl e, c2) \<longrightarrow>
      trimStagesWithClient send c opts =
        Some (Inl e, listLog @ [(UpdateSecretVersionStageCommand (secretId opts) (stage candidate)
                                   (versionId candidate), Some e)], c2)) \<and>
   (\<forall>res log c'. trimStagesWithClient send c opts = Some (res, log, c') \<longrightarrow>
      (\<forall>cmd e. (cmd, Some e) \<in> set log \<longrightarrow>
         res = Inl e \<and> last log = (cmd, Some e) \<and>
         (\<not> isUpdate cmd \<longrightarrow> (\<forall>x\<in>set log. \<not> isUpdate (fst x)))) \<and>
      (\<forall>r. res = Inr r \<and> trimmed r \<longrightarrow> (\<forall>x\<in>set log. snd x = None)))"
proof (intro conjI)
  show "\<forall>pages e cF. failsAfter send (secretId opts) c None pages e cF \<longrightarrow>
      (\<exists>log. trimStagesWithClient send c opts = Some (Inl e, log, cF) \<and>
         log = map (\<lambda>t. (ListSecretVersionIdsCommand (secretId opts) True t 100, None))
                   (butlast (None # map NextToken pages)) @
               [(ListSecretVersionIdsCommand (secretId opts) True
                   (last (None # map NextToken pages)) 100, Some e)] \<and>
         length log = Suc (length pages) \<and> (\<forall>x\<in>set log. \<not> isUpdate (fst x)))"
    by (intro allI impI) (rule trim_listing_fails)
next
  show "\<forall>labeled listLog c1 candidate e c2.
      collectLabeled send (secretId opts) None [] [] c = Some (Inr labeled, listLog, c1) \<and>
      pickOldestStageToDeprecate (uniqueStagesOf (excludeStagesOf opts) labeled) (thresholdOf opts)
        = Some candidate \<and>
      \<not> dryRunOf opts \<and>
      send c1 (UpdateSecretVersionStageCommand (secretId opts) (stage candidate)
              (versionId candidate)) = (Inl e, c2) \<longrightarrow>
      trimStagesWithClient send c opts =
        Some (Inl e, listLog @ [(UpdateSecretVersionStageCommand (secretId opts) (stage candidate)
                                   (versionId candidate), Some e)], c2)"
    by (intro allI impI, elim conjE) (rule trim_update_fails)
next
  show "\<forall>res log c'. trimStagesWithClient send c opts = Some (res, log, c') \<longrightarrow>
      (\<forall>cmd e. (cmd, Some e) \<in> set log \<longrightarrow>
         res = Inl e \<and> last log = (cmd, Some e) \<and>
         (\<not> isUpdate cmd \<longrightarrow> (\<forall>x\<in>set log. \<not> isUpdate (fst x)))) \<and>
      (\<forall>r. res = Inr r \<and> trimmed r \<longrightarrow> (\<forall>x\<in>set log. snd x = None))"
    by (intro allI impI) (rule finished_run_errors)
qed

text \<open>
  A client that rejects the second listing call, one that rejects the first, the test double
  that fails the update, and the one that accepts it.
\<close>

theorem errors_propagate_witness:
  "trimStagesWithClient flakySend 0 (testOptions 1 None) =
     Some (Inl (ClientError ''ThrottlingException'' ''rate exceeded''),
           [(ListSecretVersionIdsCommand ''my/secret'' True None 100, None),
            (ListSecretVersionIdsCommand ''my/secret'' True (Some ''next-1'') 100,
             Some (ClientError ''ThrottlingException'' ''rate exceeded''))], 2) \<and>
   trimStagesWithClient brokenSend () (testOptions 1 None) =
     Some (Inl (ClientError ''AccessDeniedException'' ''not authorized''),
           [(ListSecretVersionIdsCommand ''my/secret'' True None 100,
             Some (ClientError ''AccessDeniedException'' ''not authorized''))], ()) \<and>
   trimStagesWithClient mockSend (newMock overThresholdPages True) (testOptions 1 None) =
     Some (Inl (ClientError ''MockUpdateError'' ''Update failed (simulated)''),
           [(ListSecretVersionIdsCommand ''my/secret'' True None 100, None),
            (UpdateSecretVersionStageCommand ''my/secret'' ''stage-a'' ''v1'',
             Some (ClientError ''MockUpdateError'' ''Update failed (simulated)''))],
           \<lparr>listPages = overThresholdPages, failOnUpdate = True,
             calls = [ListSecretVersionIdsCommand ''my/secret'' True None 100,
                      UpdateSecretVersionStageCommand ''my/secret'' ''stage-a'' ''v1''],
             pageIndex = 1\<rparr>) \<and>
   trimStagesWithClient mockSend (newMock overThresholdPages False) (testOptions 1 None) =
     Some (Inr \<lparr>trimmed = True, removed = Some (''stage-a'', ''v1''), count = 3,
                manageableCount = 2\<rparr>,
           [(ListSecretVersionIdsCommand ''my/secret'' True None 100, None),
            (UpdateSecretVersionStageCommand ''my/secret'' ''stage-a'' ''v1'', None)],
           \<lparr>listPages = overThresholdPages, failOnUpdate = False,
             calls = [ListSecretVersionIdsCommand ''my/secret'' True None 100,
                      UpdateSecretVersionStageCommand ''my/secret'' ''stage-a'' ''v1''],
             pageIndex = 1\<rparr>)"
proof -
  have flaky: "failsAfter flakySend (secretId (testOptions 1 None)) 0 None [flakyPage]
      (ClientError ''ThrottlingException'' ''rate exceeded'') 2"
    by (simp add: testOptions_simps flakySend_def flakyPage_def)
  have broken: "failsAfter brokenSend (secretId (testOptions 1 None)) () None []
      (ClientError ''AccessDeniedException'' ''not authorized'') ()"
    by (simp add: brokenSend_def)
  have rejected: "collectLabeled mockSend (secretId (testOptions 1 None)) None [] []
        (newMock overThresholdPages True) =
      Some (Inr [\<lparr>stage = ''stage-a'', versionId = ''v1'', createdDate = 1704067200000\<rparr>,
                 \<lparr>stage = ''stage-b'', versionId = ''v2'', createdDate = 1704240000000\<rparr>,
                 \<lparr>stage = ''AWSCURRENT'', versionId = ''v3'', createdDate = 1704153600000\<rparr>],
            [(ListSecretVersionIdsCommand ''my/secret'' True None 100, None)],
            \<lparr>listPages = overThresholdPages, failOnUpdate = True,
              calls = [ListSecretVersionIdsCommand ''my/secret'' True None 100], pageIndex = 1\<rparr>) \<and>
      pickOldestStageToDeprecate
        (uniqueStagesOf (excludeStagesOf (testOptions 1 None))
           [\<lparr>stage = ''stage-a'', versionId = ''v1'', createdDate = 1704067200000\<rparr>,
            \<lparr>stage = ''stage-b'', versionId = ''v2'', createdDate = 1704240000000\<rparr>,
            \<lparr>stage = ''AWSCURRENT'', versionId = ''v3'', createdDate = 1704153600000\<rparr>])
        (thresholdOf (testOptions 1 None)) =
        Some \<lparr>stage = ''stage-a'', versionId = ''v1'', createdDate = 1704067200000\<rparr> \<and>
      \<not> dryRunOf (testOptions 1 None) \<and>
      mockSend \<lparr>listPages = overThresholdPages, failOnUpdate = True,
                 calls = [ListSecretVersionIdsCommand ''my/secret'' True None 100], pageIndex = 1\<rparr>
        (UpdateSecretVersionStageCommand (secretId (testOptions 1 None))
           (stage \<lparr>stage = ''stage-a'', versionId = ''v1'', createdDate = 1704067200000\<rparr>)
           (versionId \<lparr>stage = ''stage-a'', versionId = ''v1'', createdDate = 1704067200000\<rparr>)) =
        (Inl (ClientError ''MockUpdateError'' ''Update failed (simulated)''),
         \<lparr>listPages = overThresholdPages, failOnUpdate = True,
           calls = [ListSecretVersionIdsCommand ''my/secret'' True None 100,
                    UpdateSecretVersionStageCommand ''my/secret'' ''stage-a'' ''v1''],
           pageIndex = 1\<rparr>)"
    by (simp add: testOptions_simps collect_overThreshold unique_overThreshold pick_overThreshold)
  note listing1 = errors_propagate [of flakySend "testOptions 1 None" 0,
    THEN conjunct1, rule_format, OF flaky]
  note listing2 = errors_propagate [of brokenSend "testOptions 1 None" "()",
    THEN conjunct1, rule_format, OF broken]
  note update = errors_propagate [of mockSend "testOptions 1 None"
      "newMock overThresholdPages True", THEN conjunct2, THEN conjunct1, rule_format, OF rejected]
  note finished = errors_propagate [of mockSend "testOptions 1 None"
      "newMock overThresholdPages False", THEN conjunct2, THEN conjunct2, rule_format,
    OF trim_over_ok]
  show ?thesis
    using listing1 listing2 update finished
    by (simp add: testOptions_simps flakyPage_def trim_over_ok)
qed

subsection \<open>C8\<close>

text \<open>
  C8. A version entry without stage labels, absent or empty, contributes no record. An entry
  with labels contributes one record per label, in order, each with the entry's version id and
  creation date. When the creation date is missing the records carry the epoch, the time value
  0, which is not later than any date at or after the epoch. The records of a response are those
  of its entries, in order.
\<close>

theorem labels_per_version:
  "(VersionStages v = None \<or> VersionStages v = Some [] \<longrightarrow> labelsOfVersion v = []) \<and>
   (\<forall>stages. VersionStages v = Some stages \<longrightarrow>
      map stage (labelsOfVersion v) = stages \<and>
      (\<forall>r\<in>set (labelsOfVersion v).
         versionId r = VersionId v \<and>
         (\<forall>d. CreatedDate v = Some d \<longrightarrow> createdDate r = d) \<and>
         (CreatedDate v = None \<longrightarrow> createdDate r = epoch \<and> (\<forall>t\<ge>0. createdDate r \<le> t)))) \<and>
   (\<forall>vs. Versions resp = Some vs \<longrightarrow> labelsOfResponse resp = concat (map labelsOfVersion vs))"
  by (auto simp: labelsOfVersion_def labelsOfResponse_def epoch_def comp_def split: option.splits)

text \<open>
  An entry with two labels and no date, entries without labels, and a response of two entries.
\<close>

theorem labels_per_version_witness:
  "labelsOfVersion \<lparr>VersionId = ''v1'', CreatedDate = None, VersionStages = Some [''a'', ''b'']\<rparr> =
     [\<lparr>stage = ''a'', versionId = ''v1'', createdDate = 0\<rparr>,
      \<lparr>stage = ''b'', versionId = ''v1'', createdDate = 0\<rparr>] \<and>
   labelsOfVersion \<lparr>VersionId = ''v2'', CreatedDate = Some 7, VersionStages = None\<rparr> = [] \<and>
   labelsOfVersion \<lparr>VersionId = ''v3'', CreatedDate = Some 7, VersionStages = Some []\<rparr> = [] \<and>
   labelsOfResponse
     \<lparr>Versions = Some [\<lparr>VersionId = ''v2'', CreatedDate = Some 7, VersionStages = None\<rparr>,
                        \<lparr>VersionId = ''v4'', CreatedDate = Some 7, VersionStages = Some [''c'']\<rparr>],
       NextToken = None\<rparr> =
     [\<lparr>stage = ''c'', versionId = ''v4'', createdDate = 7\<rparr>]"
  using
    labels_per_version [of "\<lparr>VersionId = ''v1'', CreatedDate = None, VersionStages = Some [''a'', ''b'']\<rparr>"]
    labels_per_version [of "\<lparr>VersionId = ''v2'', CreatedDate = Some 7, VersionStages = None\<rparr>"]
    labels_per_version [of "\<lparr>VersionId = ''v3'', CreatedDate = Some 7, VersionStages = Some []\<rparr>"]
    labels_per_version [of "\<lparr>VersionId = ''v4'', CreatedDate = Some 7, VersionStages = Some [''c'']\<rparr>"
      "\<lparr>Versions = Some [\<lparr>VersionId = ''v2'', CreatedDate = Some 7, VersionStages = None\<rparr>,
                        \<lparr>VersionId = ''v4'', CreatedDate = Some 7, VersionStages = Some [''c'']\<rparr>],
       NextToken = None\<rparr>"]
  by (simp add: labelsOfVersion_def labelsOfResponse_def epoch_def)

subsection \<open>C9\<close>

text \<open>
  C9. \<^verbatim>\<open>run\<close> of \<^verbatim>\<open>src/index.js\<close> falls back to the empty string when the input
  \<^verbatim>\<open>exclude-stages\<close> is not set, so its exclusion set is empty. With a threshold of 0 and
  a secret whose only label is \<^verbatim>\<open>AWSCURRENT\<close>, it counts that label and removes it.
  (\<^verbatim>\<open>trimStagesWithClient\<close> and the \<^verbatim>\<open>run\<close> that wraps it default to the three reserved
  stages: \<open>excludeStagesOf_default\<close>, \<open>runExcludeStages_default\<close>, \<open>run_noInputs\<close>.)
\<close>

theorem index_run_removes_reserved_stage:
  "indexExcludeStages noInputs = {} \<and>
   indexRun mockSend (newMock currentOnlyPages False) noInputs =
     Some (Trimmed True,
           [(ListSecretVersionIdsCommand ''my/secret'' True None 100, None),
            (UpdateSecretVersionStageCommand ''my/secret'' ''AWSCURRENT'' ''v1'', None)],
           \<lparr>listPages = currentOnlyPages, failOnUpdate = False,
             calls = [ListSecretVersionIdsCommand ''my/secret'' True None 100,
                      UpdateSecretVersionStageCommand ''my/secret'' ''AWSCURRENT'' ''v1''],
             pageIndex = 1\<rparr>)"
  by (simp add: Let_def indexRun_def noInputs_def collect_currentOnly indexUniqueStages_def
        indexExcludeStages_def orElse_def parse_empty keepLatest_def mapGet_def toSorted_def
        byCreatedDate_def)

subsection \<open>C10\<close>

text \<open>
  C10. When the listing ends without an error and the manageable count is at or below the
  threshold, \<^verbatim>\<open>trimStagesWithClient\<close> returns the same result for every value of
  \<^verbatim>\<open>dryRun\<close>: \<^verbatim>\<open>trimmed = false\<close>, no \<^verbatim>\<open>removed\<close>, and a log without an update command.
  Two runs that differ only in \<^verbatim>\<open>dryRun\<close> can differ in outcome only when a candidate is
  selected.
\<close>

theorem under_budget_ignores_dry_run:
  "(\<forall>labeled listLog c1.
      collectLabeled send (secretId opts) None [] [] c = Some (Inr labeled, listLog, c1) \<and>
      int (length (uniqueStagesOf (excludeStagesOf opts) labeled)) \<le> thresholdOf opts \<longrightarrow>
      (\<forall>d. trimStagesWithClient send c (opts\<lparr>dryRun := d\<rparr>) =
             Some (Inr \<lparr>trimmed = False, removed = None, count = length labeled,
                        manageableCount = length (uniqueStagesOf (excludeStagesOf opts) labeled)\<rparr>,
                   listLog, c1)) \<and>
      (\<forall>x\<in>set listLog. \<not> isUpdate (fst x))) \<and>
   (\<forall>d d'. trimStagesWithClient send c (opts\<lparr>dryRun := d\<rparr>) \<noteq>
             trimStagesWithClient send c (opts\<lparr>dryRun := d'\<rparr>) \<longrightarrow>
      (\<exists>labeled listLog c1 candidate.
         collectLabeled send (secretId opts) None [] [] c = Some (Inr labeled, listLog, c1) \<and>
         pickOldestStageToDeprecate (uniqueStagesOf (excludeStagesOf opts) labeled) (thresholdOf opts)
           = Some candidate))"
proof (intro conjI allI impI)
  fix labeled listLog c1 d
  assume a: "collectLabeled send (secretId opts) None [] [] c = Some (Inr labeled, listLog, c1) \<and>
      int (length (uniqueStagesOf (excludeStagesOf opts) labeled)) \<le> thresholdOf opts"
  then have "collectLabeled send (secretId (opts\<lparr>dryRun := d\<rparr>)) None [] [] c =
      Some (Inr labeled, listLog, c1)" by simp
  from trim_collected [OF this] a
  show "trimStagesWithClient send c (opts\<lparr>dryRun := d\<rparr>) =
             Some (Inr \<lparr>trimmed = False, removed = None, count = length labeled,
                        manageableCount = length (uniqueStagesOf (excludeStagesOf opts) labeled)\<rparr>,
                   listLog, c1)"
    by (simp add: decide_def pickOldestStageToDeprecate_def)
next
  fix labeled listLog c1
  assume "collectLabeled send (secretId opts) None [] [] c = Some (Inr labeled, listLog, c1) \<and>
      int (length (uniqueStagesOf (excludeStagesOf opts) labeled)) \<le> thresholdOf opts"
  then have "collectLabeled send (secretId opts) None [] [] c = Some (Inr labeled, listLog, c1)"
    by simp
  from collect_lists_only [OF this] show "\<forall>x\<in>set listLog. \<not> isUpdate (fst x)" .
next
  fix d d'
  assume ne: "trimStagesWithClient send c (opts\<lparr>dryRun := d\<rparr>) \<noteq>
             trimStagesWithClient send c (opts\<lparr>dryRun := d'\<rparr>)"
  show "\<exists>labeled listLog c1 candidate.
         collectLabeled send (secretId opts) None [] [] c = Some (Inr labeled, listLog, c1) \<and>
         pickOldestStageToDeprecate (uniqueStagesOf (excludeStagesOf opts) labeled) (thresholdOf opts)
           = Some candidate"
  proof (cases "collectLabeled send (secretId opts) None [] [] c")
    case None
    with ne show ?thesis by (simp add: trimStagesWithClient_def)
  next
    case (Some y)
    obtain r listLog c1 where y: "y = (r, listLog, c1)" by (cases y)
    show ?thesis
    proof (cases r)
      case (Inl e)
      with ne Some y show ?thesis by (simp add: trimStagesWithClient_def)
    next
      case (Inr labeled)
      show ?thesis
      proof (cases "pickOldestStageToDeprecate (uniqueStagesOf (excludeStagesOf opts) labeled)
                      (thresholdOf opts)")
        case None
        with ne Some y Inr show ?thesis
          by (simp add: trimStagesWithClient_def decide_def)
      next
        case (Some candidate)
        with \<open>collectLabeled send (secretId opts) None [] [] c = Some y\<close> y Inr
        show ?thesis by blast
      qed
    qed
  qed
qed

text \<open>
  The test at the threshold, for both values of the flag, and the pages over the threshold, where
  the flag changes the outcome and a candidate exists.
\<close>

theorem under_budget_ignores_dry_run_witness:
  "trimStagesWithClient mockSend (newMock atThresholdPages False) (testOptions 1 (Some True)) =
     Some (Inr \<lparr>trimmed = False, removed = None, count = 2, manageableCount = 1\<rparr>,
           [(ListSecretVersionIdsCommand ''my/secret'' True None 100, None)],
           \<lparr>listPages = atThresholdPages, failOnUpdate = False,
             calls = [ListSecretVersionIdsCommand ''my/secret'' True None 100], pageIndex = 1\<rparr>) \<and>
   trimStagesWithClient mockSend (newMock atThresholdPages False) (testOptions 1 (Some False)) =
     Some (Inr \<lparr>trimmed = False, removed = None, count = 2, manageableCount = 1\<rparr>,
           [(ListSecretVersionIdsCommand ''my/secret'' True None 100, None)],
           \<lparr>listPages = atThresholdPages, failOnUpdate = False,
             calls = [ListSecretVersionIdsCommand ''my/secret'' True None 100], pageIndex = 1\<rparr>) \<and>
   trimStagesWithClient mockSend (newMock overThresholdPages False) (testOptions 1 (Some True)) \<noteq>
   trimStagesWithClient mockSend (newMock overThresholdPages False) (testOptions 1 (Some False)) \<and>
   pickOldestStageToDeprecate
     (uniqueStagesOf defaultExcludeStages
        [\<lparr>stage = ''stage-a'', versionId = ''v1'', createdDate = 1704067200000\<rparr>,
         \<lparr>stage = ''stage-b'', versionId = ''v2'', createdDate = 1704240000000\<rparr>,
         \<lparr>stage = ''AWSCURRENT'', versionId = ''v3'', createdDate = 1704153600000\<rparr>]) 1 =
     Some \<lparr>stage = ''stage-a'', versionId = ''v1'', createdDate = 1704067200000\<rparr>"
proof -
  have differ: "trimStagesWithClient mockSend (newMock overThresholdPages False)
        (testOptions 1 (Some True)) \<noteq>
      trimStagesWithClient mockSend (newMock overThresholdPages False) (testOptions 1 (Some False))"
    by (simp add: trimStagesWithClient_def collect_overThreshold decide_def unique_overThreshold
          pick_overThreshold testOptions_simps Let_def)
  have under: "collectLabeled mockSend (secretId (testOptions 1 None)) None [] []
        (newMock atThresholdPages False) =
      Some (Inr [\<lparr>stage = ''custom-1'', versionId = ''v1'', createdDate = 1704067200000\<rparr>,
                 \<lparr>stage = ''AWSCURRENT'', versionId = ''v2'', createdDate = 1704153600000\<rparr>],
            [(ListSecretVersionIdsCommand ''my/secret'' True None 100, None)],
            \<lparr>listPages = atThresholdPages, failOnUpdate = False,
              calls = [ListSecretVersionIdsCommand ''my/secret'' True None 100], pageIndex = 1\<rparr>) \<and>
      int (length (uniqueStagesOf (excludeStagesOf (testOptions 1 None))
        [\<lparr>stage = ''custom-1'', versionId = ''v1'', createdDate = 1704067200000\<rparr>,
         \<lparr>stage = ''AWSCURRENT'', versionId = ''v2'', createdDate = 1704153600000\<rparr>]))
        \<le> thresholdOf (testOptions 1 None)"
    by (simp add: collect_atThreshold testOptions_simps unique_atThreshold)
  note same = under_budget_ignores_dry_run
    [of mockSend "testOptions 1 None" "newMock atThresholdPages False",
     THEN conjunct1, rule_format, OF under, THEN conjunct1, rule_format]
  note exists = under_budget_ignores_dry_run
    [of mockSend "testOptions 1 None" "newMock overThresholdPages False",
     THEN conjunct2, rule_format, of "Some True" "Some False"]
  show ?thesis
    using differ same [of "Some True"] same [of "Some False"] exists
    by (simp add: testOptions_simps unique_atThreshold unique_overThreshold pick_overThreshold)
qed

end
